theory Spec2Isabelle
  imports Complex_Main "HOL-Library.AList" "HOL-Library.Char_ord" "HOL-Library.List_Lexorder"
    "HOL-Library.Multiset"
begin

section \<open>DistributionModel (tensorforce/models/distribution_model.py)\<close>

text \<open>
  The class orchestrates objects of the surrounding library: a network, one distribution
  per action, the superclass \<^verbatim>\<open>MemoryModel\<close> and the tensor framework. The embedding
  keeps the control flow, the dictionaries, the assertions and the order of the calls of
  the source. What the source delegates is represented as follows.
  \<^item> A Python \<^verbatim>\<open>dict\<close> is an association list with distinct keys, in insertion order;
    \<^verbatim>\<open>d[k] = v\<close> is \<open>AList.update\<close> (replace in place, else append), \<^verbatim>\<open>d[k]\<close> raises
    \<^verbatim>\<open>KeyError\<close> on a missing key.
  \<^item> A numeric tensor is the graph node the framework call builds; a boolean tensor is the
    truth value it carries.
  \<^item> An object of a class defined outside the file is the term of its construction; its
    methods, the superclass methods and the helpers of \<^verbatim>\<open>util\<close> are the fields of an
    environment record \<open>env\<close>, total functions about which nothing is assumed.
  \<^item> Calls on the network and on the distributions are recorded, in order, as events.
\<close>

subsection \<open>Values\<close>

text \<open>A Python float: the ordered values and NaN, which compares false with everything.\<close>

datatype pyfloat = Finite real | PosInf | NegInf | NaN

fun float_ge0 :: "pyfloat \<Rightarrow> bool" where
  "float_ge0 (Finite r) = (0 \<le> r)"
| "float_ge0 PosInf = True"
| "float_ge0 NegInf = False"
| "float_ge0 NaN = False"

fun float_gt0 :: "pyfloat \<Rightarrow> bool" where
  "float_gt0 (Finite r) = (0 < r)"
| "float_gt0 PosInf = True"
| "float_gt0 NegInf = False"
| "float_gt0 NaN = False"

fun float_lt0 :: "pyfloat \<Rightarrow> bool" where
  "float_lt0 (Finite r) = (r < 0)"
| "float_lt0 PosInf = False"
| "float_lt0 NegInf = True"
| "float_lt0 NaN = False"



datatype pyval =
    VStr string
  | VInt int
  | VFloat pyfloat
  | VTuple "pyval list"
  | VLabels "string list"
  | VDict "(string \<times> pyval) list"

type_synonym 'v dict = "(string \<times> 'v) list"

datatype error =
  AssertionError | KeyError string | IndexError | AttributeError | TypeError | ValueError

definition getitem :: "'v dict \<Rightarrow> string \<Rightarrow> error + 'v" where
  "getitem d k = (case map_of d k of None \<Rightarrow> Inl (KeyError k) | Some v \<Rightarrow> Inr v)"

definition contains :: "string \<Rightarrow> 'v dict \<Rightarrow> bool" where
  "contains k d = (k \<in> fst ` set d)"

definition index :: "'a list \<Rightarrow> nat \<Rightarrow> error + 'a" where
  "index xs i = (if i < length xs then Inr (xs ! i) else Inl IndexError)"

fun bind :: "error + 'a \<Rightarrow> ('a \<Rightarrow> error + 'b) \<Rightarrow> error + 'b" where
  "bind (Inl e) f = Inl e"
| "bind (Inr x) f = f x"

subsection \<open>Objects of the library\<close>

datatype distribution =
    Bernoulli pyval "string list"
  | Categorical pyval pyval "string list"
  | Beta pyval pyval pyval "string list"
  | Gaussian pyval "string list"
  | Distribution_from_spec pyval "pyval dict"

datatype network = Network_from_spec pyval "pyval dict"

subsection \<open>Tensors, events, the model object and its environment\<close>

datatype tensor =
    Tensor string
  | Constant pyfloat
  | Stop_gradient tensor
  | Reshape tensor "int list"
  | Concat "tensor list" int
  | Reduce_mean tensor int
  | Multiply tensor tensor
  | Add tensor tensor
  | Summary_scalar string tensor

text \<open>
  \<^verbatim>\<open>tf.concat(values, axis)\<close>: the framework rejects an empty list of values with a
  \<^verbatim>\<open>ValueError\<close>; otherwise the call builds the concatenation node.
\<close>

definition tf_concat :: "tensor list \<Rightarrow> int \<Rightarrow> error + tensor" where
  "tf_concat vs axis = (if vs = [] then Inl ValueError else Inr (Concat vs axis))"

type_synonym states = "tensor dict"
type_synonym internals = "tensor list"
type_synonym variable = string

datatype template = Make_template string string pyval

datatype argument = Fn "template option" | Argument pyval

datatype event =
    Network_apply network states internals bool bool
  | Network_set_named_tensor network string tensor
  | Network_regularization_loss network
  | Parameterize distribution tensor
  | Sample distribution "tensor list" bool
  | Entropy distribution "tensor list"
  | Kl_divergence distribution "tensor list" "tensor list"
  | Distribution_regularization_loss distribution

text \<open>The attributes of \<^verbatim>\<open>self\<close> the file reads or writes; the last four are inherited.\<close>

record model =
  network_spec :: pyval
  distributions_spec :: "pyval dict option"
  entropy_regularization :: "pyfloat option"
  requires_deterministic :: bool
  network :: "network option"
  distributions :: "distribution dict option"
  fn_kl_divergence :: "template option"
  actions_spec :: "(pyval dict) dict"
  summary_labels :: "string list"
  internals_spec :: "pyval dict"
  summaries :: "tensor list"

text \<open>The sixteen constructor arguments handed on to the superclass.\<close>

record memory_model_args =
  arg_states :: pyval
  arg_actions :: pyval
  arg_scope :: pyval
  arg_device :: pyval
  arg_saver :: pyval
  arg_summarizer :: pyval
  arg_distributed :: pyval
  arg_batching_capacity :: pyval
  arg_variable_noise :: pyval
  arg_states_preprocessing :: pyval
  arg_actions_exploration :: pyval
  arg_reward_preprocessing :: pyval
  arg_update_mode :: pyval
  arg_memory :: pyval
  arg_optimizer :: pyval
  arg_discount :: pyval

text \<open>
  The methods of the network and of the distributions, \<^verbatim>\<open>util.shape\<close> and
  \<^verbatim>\<open>util.prod\<close>, and the methods of the superclass. \<open>network_apply\<close> takes
  \<^verbatim>\<open>x, internals, update, return_internals\<close> and yields the embedding and the
  internals; a call without \<^verbatim>\<open>return_internals\<close> receives the embedding alone.
\<close>

record env =
  network_apply :: "network \<Rightarrow> states \<Rightarrow> internals \<Rightarrow> bool \<Rightarrow> bool \<Rightarrow> tensor \<times> internals"
  network_internals_spec :: "network \<Rightarrow> pyval dict"
  network_regularization_loss :: "network \<Rightarrow> tensor option"
  network_get_variables :: "network \<Rightarrow> bool \<Rightarrow> variable list"
  network_get_summaries :: "network \<Rightarrow> tensor list"
  parameterize :: "distribution \<Rightarrow> tensor \<Rightarrow> tensor list"
  sample :: "distribution \<Rightarrow> tensor list \<Rightarrow> bool \<Rightarrow> tensor"
  entropy :: "distribution \<Rightarrow> tensor list \<Rightarrow> tensor"
  kl_divergence :: "distribution \<Rightarrow> tensor list \<Rightarrow> tensor list \<Rightarrow> tensor"
  distribution_regularization_loss :: "distribution \<Rightarrow> tensor option"
  distribution_get_variables :: "distribution \<Rightarrow> bool \<Rightarrow> variable list"
  distribution_get_summaries :: "distribution \<Rightarrow> tensor list"
  util_shape :: "tensor \<Rightarrow> int list"
  util_prod :: "int list \<Rightarrow> int"
  super_init :: "model \<Rightarrow> memory_model_args \<Rightarrow> model"
  super_initialize :: "model \<Rightarrow> pyval \<Rightarrow> model"
  super_regularization_losses :: "model \<Rightarrow> states \<Rightarrow> internals \<Rightarrow> bool \<Rightarrow> tensor dict"
  super_optimizer_arguments ::
    "model \<Rightarrow> states \<Rightarrow> internals \<Rightarrow> tensor dict \<Rightarrow> tensor \<Rightarrow> tensor \<Rightarrow> states \<Rightarrow> internals
      \<Rightarrow> argument dict"
  super_get_variables :: "model \<Rightarrow> bool \<Rightarrow> bool \<Rightarrow> variable list"
  super_get_summaries :: "model \<Rightarrow> tensor list"

subsection \<open>The constructor\<close>

definition DistributionModel_init ::
  "env \<Rightarrow> model \<Rightarrow> memory_model_args \<Rightarrow> pyval \<Rightarrow> pyval dict option \<Rightarrow> pyfloat option \<Rightarrow> bool
    \<Rightarrow> error + model" where
  "DistributionModel_init E self args net_arg distr_arg er_arg det_arg =
    (let self1 = self\<lparr>network_spec := net_arg, distributions_spec := distr_arg\<rparr>
     in if \<not> (er_arg = None \<or> float_ge0 (the er_arg)) then Inl AssertionError
        else
          (let self2 = self1\<lparr>entropy_regularization := er_arg,
                 requires_deterministic := det_arg, network := None,
                 distributions := None, fn_kl_divergence := None\<rparr>
           in Inr (super_init E self2 args)))"

subsection \<open>create_distributions\<close>

text \<open>
  The body of the loop over \<^verbatim>\<open>self.actions_spec.items()\<close>: the distribution stored under
  \<open>name\<close>, or no distribution for a type outside the three, or the \<^verbatim>\<open>KeyError\<close> of the
  first missing key. The arguments of a constructor are evaluated left to right.
\<close>

definition create_distribution ::
  "string list \<Rightarrow> pyval dict option \<Rightarrow> string \<Rightarrow> pyval dict \<Rightarrow> error + distribution option" where
  "create_distribution labels dspec name action =
    (if dspec \<noteq> None \<and> contains name (the dspec) then
       (let kwargs = AList.update ''summary_labels'' (VLabels labels) action
        in bind (getitem (the dspec) name)
             (\<lambda>spec. Inr (Some (Distribution_from_spec spec kwargs))))
     else bind (getitem action ''type'') (\<lambda>ty.
       if ty = VStr ''bool'' then
         bind (getitem action ''shape'') (\<lambda>shape.
           Inr (Some (Bernoulli shape labels)))
       else if ty = VStr ''int'' then
         bind (getitem action ''shape'') (\<lambda>shape.
         bind (getitem action ''num_actions'') (\<lambda>num_actions.
           Inr (Some (Categorical shape num_actions labels))))
       else if ty = VStr ''float'' then
         (if contains ''min_value'' action then
            bind (getitem action ''shape'') (\<lambda>shape.
            bind (getitem action ''min_value'') (\<lambda>min_value.
            bind (getitem action ''max_value'') (\<lambda>max_value.
              Inr (Some (Beta shape min_value max_value labels)))))
          else
            bind (getitem action ''shape'') (\<lambda>shape.
              Inr (Some (Gaussian shape labels))))
       else Inr None))"

fun create_distributions_loop ::
  "string list \<Rightarrow> pyval dict option \<Rightarrow> (pyval dict) dict \<Rightarrow> distribution dict
    \<Rightarrow> error + distribution dict" where
  "create_distributions_loop labels dspec [] acc = Inr acc"
| "create_distributions_loop labels dspec ((name, action) # items) acc =
     bind (create_distribution labels dspec name action) (\<lambda>r.
       create_distributions_loop labels dspec items
         (case r of None \<Rightarrow> acc | Some d \<Rightarrow> AList.update name d acc))"

definition create_distributions :: "model \<Rightarrow> error + distribution dict" where
  "create_distributions self =
     create_distributions_loop (summary_labels self) (distributions_spec self)
       (actions_spec self) []"

subsection \<open>initialize\<close>

definition initialize :: "env \<Rightarrow> model \<Rightarrow> pyval \<Rightarrow> error + model" where
  "initialize E self custom_getter =
    (let net = Network_from_spec (network_spec self)
                 [(''summary_labels'', VLabels (summary_labels self))];
         self1 = self\<lparr>network := Some net\<rparr>
     in if length (internals_spec self1) \<noteq> 0 then Inl AssertionError
        else
          (let self2 = self1\<lparr>internals_spec := network_internals_spec E net\<rparr>;
               self3 = super_initialize E self2 custom_getter
           in bind (create_distributions self3) (\<lambda>ds.
                Inr (self3\<lparr>distributions := Some ds,
                       fn_kl_divergence :=
                         Some (Make_template ''kl-divergence'' ''tf_kl_divergence''
                                 custom_getter)\<rparr>))))"

subsection \<open>tf_actions_and_internals\<close>

text \<open>
  The loop over \<^verbatim>\<open>self.distributions.items()\<close>; \<open>n\<close> is
  \<^verbatim>\<open>len(self.distributions.items())\<close>. The result is the list of the calls made and
  either the dictionary of actions or the \<^verbatim>\<open>IndexError\<close> of a parameter tuple with
  fewer than three components.
\<close>

fun actions_loop ::
  "env \<Rightarrow> network \<Rightarrow> bool \<Rightarrow> bool \<Rightarrow> nat \<Rightarrow> tensor \<Rightarrow> distribution dict \<Rightarrow> tensor dict
    \<Rightarrow> event list \<times> (error + tensor dict)" where
  "actions_loop E net det req n embedding [] acts = ([], Inr acts)"
| "actions_loop E net det req n embedding ((name, d) # items) acts =
    (let distr_params = parameterize E d embedding;
         flag = (det \<or> req);
         acts1 = AList.update name (sample E d distr_params flag) acts;
         name_prefix = (if n > 1 then name @ ''_'' else []);
         ev0 = [Parameterize d embedding, Sample d distr_params flag]
     in case index distr_params 0 of
          Inl e \<Rightarrow> (ev0, Inl e)
        | Inr t0 \<Rightarrow>
           (let ev1 = ev0 @ [Network_set_named_tensor net (name_prefix @ ''logits'') t0]
            in case index distr_params 1 of
                 Inl e \<Rightarrow> (ev1, Inl e)
               | Inr t1 \<Rightarrow>
                  (let ev2 = ev1 @
                         [Network_set_named_tensor net (name_prefix @ ''probabilities'') t1]
                   in case index distr_params 2 of
                        Inl e \<Rightarrow> (ev2, Inl e)
                      | Inr t2 \<Rightarrow>
                         (let ev3 = ev2 @
                                [Network_set_named_tensor net
                                   (name_prefix @ ''state_value'') t2]
                          in case actions_loop E net det req n embedding items acts1 of
                               (evs, r) \<Rightarrow> (ev3 @ evs, r)))))"

definition tf_actions_and_internals ::
  "env \<Rightarrow> model \<Rightarrow> states \<Rightarrow> internals \<Rightarrow> bool
    \<Rightarrow> event list \<times> (error + tensor dict \<times> internals)" where
  "tf_actions_and_internals E self sts ints det =
    (case network self of
       None \<Rightarrow> ([], Inl AttributeError)
     | Some net \<Rightarrow>
        (case network_apply E net sts ints False True of
           (embedding, ints1) \<Rightarrow>
            (case distributions self of
               None \<Rightarrow> ([Network_apply net sts ints False True], Inl AttributeError)
             | Some ds \<Rightarrow>
                (case actions_loop E net det (requires_deterministic self) (length ds)
                        embedding ds [] of
                   (evs, r) \<Rightarrow>
                     (Network_apply net sts ints False True # evs,
                      bind r (\<lambda>acts. Inr (acts, ints1)))))))"

subsection \<open>tf_regularization_losses\<close>




subsection \<open>tf_kl_divergence\<close>

fun kl_loop ::
  "env \<Rightarrow> tensor \<Rightarrow> distribution dict \<Rightarrow> tensor list \<Rightarrow> event list \<times> tensor list" where
  "kl_loop E embedding [] kl_divergences = ([], kl_divergences)"
| "kl_loop E embedding ((name, d) # items) kl_divergences =
    (let distr_params = parameterize E d embedding;
         fixed_distr_params = map Stop_gradient distr_params;
         kl = kl_divergence E d fixed_distr_params distr_params;
         collapsed_size = util_prod E (drop 1 (util_shape E kl));
         kl1 = Reshape kl [- 1, collapsed_size]
     in case kl_loop E embedding items (kl_divergences @ [kl1]) of
          (evs, r) \<Rightarrow>
            (Parameterize d embedding # Kl_divergence d fixed_distr_params distr_params
               # evs, r))"

definition tf_kl_divergence ::
  "env \<Rightarrow> model \<Rightarrow> states \<Rightarrow> internals \<Rightarrow> tensor dict \<Rightarrow> tensor \<Rightarrow> tensor \<Rightarrow> states
    \<Rightarrow> internals \<Rightarrow> bool \<Rightarrow> tensor option \<Rightarrow> event list \<times> (error + tensor)" where
  "tf_kl_divergence E self sts ints acts terminal reward next_states next_internals upd
     reference =
    (case network self of
       None \<Rightarrow> ([], Inl AttributeError)
     | Some net \<Rightarrow>
        (let embedding = fst (network_apply E net sts ints upd False);
             ev0 = [Network_apply net sts ints upd False]
         in case distributions self of
              None \<Rightarrow> (ev0, Inl AttributeError)
            | Some ds \<Rightarrow>
               (case kl_loop E embedding ds [] of
                  (evs, kl_divergences) \<Rightarrow>
                   (ev0 @ evs,
                    bind (tf_concat kl_divergences 1) (\<lambda>concatenated.
                      (let kl_divergence_per_instance = Reduce_mean concatenated 1
                       in Inr (Reduce_mean kl_divergence_per_instance 0)))))))"

subsection \<open>optimizer_arguments, get_variables, get_summaries\<close>

definition optimizer_arguments ::
  "env \<Rightarrow> model \<Rightarrow> states \<Rightarrow> internals \<Rightarrow> tensor dict \<Rightarrow> tensor \<Rightarrow> tensor \<Rightarrow> states
    \<Rightarrow> internals \<Rightarrow> argument dict" where
  "optimizer_arguments E self sts ints acts terminal reward next_states next_internals =
    (let arguments = super_optimizer_arguments E self sts ints acts terminal reward
                       next_states next_internals
     in AList.update ''fn_kl_divergence'' (Fn (fn_kl_divergence self)) arguments)"

text \<open>
  The comprehension \<^verbatim>\<open>[x for name in names for x in self.distributions[name].f()]\<close>.
\<close>

fun per_distribution ::
  "(distribution \<Rightarrow> 'a list) \<Rightarrow> distribution dict \<Rightarrow> string list \<Rightarrow> error + 'a list" where
  "per_distribution f ds [] = Inr []"
| "per_distribution f ds (name # names) =
     bind (getitem ds name) (\<lambda>d.
       bind (per_distribution f ds names) (\<lambda>rest. Inr (f d @ rest)))"

definition sorted_names :: "'v dict \<Rightarrow> string list" where
  "sorted_names d = sort (map fst d)"

definition get_variables :: "env \<Rightarrow> model \<Rightarrow> bool \<Rightarrow> bool \<Rightarrow> error + variable list" where
  "get_variables E self include_submodules include_nontrainable =
    (let model_variables =
           super_get_variables E self include_submodules include_nontrainable
     in case network self of
          None \<Rightarrow> Inl AttributeError
        | Some net \<Rightarrow>
           (let network_variables = network_get_variables E net include_nontrainable;
                model_variables1 = model_variables @ network_variables
            in case distributions self of
                 None \<Rightarrow> Inl TypeError
               | Some ds \<Rightarrow>
                  bind (per_distribution
                          (\<lambda>d. distribution_get_variables E d include_nontrainable)
                          ds (sorted_names ds))
                    (\<lambda>distribution_variables.
                       Inr (model_variables1 @ distribution_variables))))"

definition get_summaries :: "env \<Rightarrow> model \<Rightarrow> error + tensor list" where
  "get_summaries E self =
    (let model_summaries = super_get_summaries E self
     in case network self of
          None \<Rightarrow> Inl AttributeError
        | Some net \<Rightarrow>
           (let network_summaries = network_get_summaries E net
            in case distributions self of
                 None \<Rightarrow> Inl TypeError
               | Some ds \<Rightarrow>
                  bind (per_distribution (distribution_get_summaries E) ds (sorted_names ds))
                    (\<lambda>distribution_summaries.
                       Inr (model_summaries @ network_summaries
                              @ distribution_summaries))))"

section \<open>Auxiliary definitions\<close>

text \<open>
  An action carries the keys that the branch of its type reads: \<^verbatim>\<open>type\<close> itself,
  \<^verbatim>\<open>shape\<close> for the three types, \<^verbatim>\<open>num_actions\<close> for \<^verbatim>\<open>int\<close>, and \<^verbatim>\<open>max_value\<close> for a
  \<^verbatim>\<open>float\<close> that has \<^verbatim>\<open>min_value\<close>.
\<close>

definition action_well_formed :: "pyval dict \<Rightarrow> bool" where
  "action_well_formed action =
    (case map_of action ''type'' of
       None \<Rightarrow> False
     | Some ty \<Rightarrow>
        (ty \<in> {VStr ''bool'', VStr ''int'', VStr ''float''} \<longrightarrow> contains ''shape'' action)
        \<and> (ty = VStr ''int'' \<longrightarrow> contains ''num_actions'' action)
        \<and> (ty = VStr ''float'' \<and> contains ''min_value'' action
              \<longrightarrow> contains ''max_value'' action))"

text \<open>
  The name has an entry in \<^verbatim>\<open>distributions_spec\<close>.
\<close>

definition overridden :: "pyval dict option \<Rightarrow> string \<Rightarrow> bool" where
  "overridden dspec name = (dspec \<noteq> None \<and> contains name (the dspec))"

text \<open>
  Concrete objects for the closed instances of the theorems.
\<close>

definition example_model :: model where
  "example_model =
    \<lparr>network_spec = VTuple [], distributions_spec = None, entropy_regularization = None,
     requires_deterministic = False, network = None, distributions = None,
     fn_kl_divergence = None, actions_spec = [], summary_labels = [],
     internals_spec = [], summaries = []\<rparr>"

definition example_actions :: "(pyval dict) dict" where
  "example_actions =
    [(''flag'', [(''type'', VStr ''bool''), (''shape'', VTuple [])]),
     (''move'', [(''type'', VStr ''int''), (''shape'', VTuple []), (''num_actions'', VInt 3)])]"

definition example_args :: memory_model_args where
  "example_args =
    \<lparr>arg_states = VDict [], arg_actions = VDict [], arg_scope = VStr ''model'',
     arg_device = VStr ''cpu'', arg_saver = VDict [], arg_summarizer = VDict [],
     arg_distributed = VDict [], arg_batching_capacity = VInt 1000,
     arg_variable_noise = VFloat (Finite 0), arg_states_preprocessing = VDict [],
     arg_actions_exploration = VDict [], arg_reward_preprocessing = VDict [],
     arg_update_mode = VDict [], arg_memory = VDict [], arg_optimizer = VDict [],
     arg_discount = VFloat (Finite 1)\<rparr>"

definition example_env :: env where
  "example_env =
    \<lparr>network_apply = (\<lambda>net x ints upd ri. (Tensor ''embedding'', ints)),
     network_internals_spec = (\<lambda>net. [(''lstm'', VTuple [])]),
     network_regularization_loss = (\<lambda>net. None),
     network_get_variables = (\<lambda>net nt. [''dense/W'']),
     network_get_summaries = (\<lambda>net. [Tensor ''dense/summary'']),
     parameterize = (\<lambda>d x. [Tensor ''logits'', Tensor ''probabilities'', Tensor ''state_value'']),
     sample = (\<lambda>d ps flag. if flag then Tensor ''mode'' else Tensor ''draw''),
     entropy = (\<lambda>d ps. Tensor ''entropy''),
     kl_divergence = (\<lambda>d p q. Tensor ''kl''),
     distribution_regularization_loss = (\<lambda>d. None),
     distribution_get_variables =
       (\<lambda>d nt. case d of Bernoulli s l \<Rightarrow> [''bernoulli/W'']
                | Categorical s n l \<Rightarrow> [''categorical/W''] | _ \<Rightarrow> []),
     distribution_get_summaries =
       (\<lambda>d. case d of Bernoulli s l \<Rightarrow> [Tensor ''bernoulli/summary'']
                | Categorical s n l \<Rightarrow> [Tensor ''categorical/summary''] | _ \<Rightarrow> []),
     util_shape = (\<lambda>t. [- 1, 2]),
     util_prod = prod_list,
     super_init = (\<lambda>self args. self\<lparr>actions_spec := example_actions, summary_labels := [],
                      internals_spec := [], summaries := []\<rparr>),
     super_initialize = (\<lambda>self custom_getter. self),
     super_regularization_losses = (\<lambda>self x ints upd. []),
     super_optimizer_arguments =
       (\<lambda>self x ints acts terminal reward nx nints. [(''time'', Argument (VInt 0))]),
     super_get_variables = (\<lambda>self sub nt. [''timestep'']),
     super_get_summaries = (\<lambda>self. [Tensor ''reward/summary''])\<rparr>"

text \<open>
  The calls of one kind among the recorded events, in order.
\<close>

fun apply_calls :: "event list \<Rightarrow> (network \<times> states \<times> internals \<times> bool \<times> bool) list" where
  "apply_calls [] = []"
| "apply_calls (Network_apply net x ints upd ri # evs) = (net, x, ints, upd, ri) # apply_calls evs"
| "apply_calls (_ # evs) = apply_calls evs"

fun parameterize_calls :: "event list \<Rightarrow> (distribution \<times> tensor) list" where
  "parameterize_calls [] = []"
| "parameterize_calls (Parameterize d x # evs) = (d, x) # parameterize_calls evs"
| "parameterize_calls (_ # evs) = parameterize_calls evs"

fun sample_calls :: "event list \<Rightarrow> (distribution \<times> tensor list \<times> bool) list" where
  "sample_calls [] = []"
| "sample_calls (Sample d ps flag # evs) = (d, ps, flag) # sample_calls evs"
| "sample_calls (_ # evs) = sample_calls evs"

fun named_tensor_calls :: "event list \<Rightarrow> (string \<times> tensor) list" where
  "named_tensor_calls [] = []"
| "named_tensor_calls (Network_set_named_tensor net k t # evs) = (k, t) # named_tensor_calls evs"
| "named_tensor_calls (_ # evs) = named_tensor_calls evs"

fun kl_divergence_calls :: "event list \<Rightarrow> (distribution \<times> tensor list \<times> tensor list) list" where
  "kl_divergence_calls [] = []"
| "kl_divergence_calls (Kl_divergence d p q # evs) = (d, p, q) # kl_divergence_calls evs"
| "kl_divergence_calls (_ # evs) = kl_divergence_calls evs"

text \<open>What one pass of the loop body does when the parameter tuple has three components.\<close>

definition body_events :: "env \<Rightarrow> network \<Rightarrow> bool \<Rightarrow> nat \<Rightarrow> tensor \<Rightarrow> string \<times> distribution \<Rightarrow> event list" where
  "body_events E net flag n emb item =
    (case item of (name, d) \<Rightarrow>
      [Parameterize d emb, Sample d (parameterize E d emb) flag,
       Network_set_named_tensor net ((if n > 1 then name @ ''_'' else []) @ ''logits'')
         (parameterize E d emb ! 0),
       Network_set_named_tensor net ((if n > 1 then name @ ''_'' else []) @ ''probabilities'')
         (parameterize E d emb ! 1),
       Network_set_named_tensor net ((if n > 1 then name @ ''_'' else []) @ ''state_value'')
         (parameterize E d emb ! 2)])"

text \<open>
  The embedding that \<^verbatim>\<open>tf_actions_and_internals\<close> obtains from its network application.
\<close>

definition shared_embedding :: "env \<Rightarrow> network \<Rightarrow> states \<Rightarrow> internals \<Rightarrow> tensor" where
  "shared_embedding E net x ints = fst (network_apply E net x ints False True)"

definition example_network :: network where
  "example_network = Network_from_spec (VTuple []) [(''summary_labels'', VLabels [])]"

definition example_distributions :: "distribution dict" where
  "example_distributions =
    [(''flag'', Bernoulli (VTuple []) []), (''move'', Categorical (VTuple []) (VInt 3) [])]"

definition example_initialized :: model where
  "example_initialized =
    example_model\<lparr>actions_spec := example_actions, network := Some example_network,
      internals_spec := [(''lstm'', VTuple [])],
      distributions := Some example_distributions,
      fn_kl_divergence :=
        Some (Make_template ''kl-divergence'' ''tf_kl_divergence'' (VStr ''getter''))\<rparr>"

definition example_parameters :: "tensor list" where
  "example_parameters = [Tensor ''logits'', Tensor ''probabilities'', Tensor ''state_value'']"

text \<open>
  The embedding that \<^verbatim>\<open>tf_kl_divergence\<close> and \<^verbatim>\<open>tf_regularization_losses\<close> obtain
  from their network application (without \<^verbatim>\<open>return_internals\<close>).
\<close>

definition embedding_of :: "env \<Rightarrow> network \<Rightarrow> states \<Rightarrow> internals \<Rightarrow> bool \<Rightarrow> tensor" where
  "embedding_of E net x ints upd = fst (network_apply E net x ints upd False)"

text \<open>
  The model that \<^verbatim>\<open>initialize\<close> produces from an empty \<^verbatim>\<open>actions_spec\<close>: it holds a
  network and an empty dictionary of distributions.
\<close>

definition example_empty :: model where
  "example_empty =
    example_model\<lparr>network := Some example_network,
      internals_spec := [(''lstm'', VTuple [])], distributions := Some [],
      fn_kl_divergence :=
        Some (Make_template ''kl-divergence'' ''tf_kl_divergence'' (VStr ''getter''))\<rparr>"



section \<open>Properties\<close>

subsection \<open>Dictionaries and errors\<close>

lemma bind_Inr_iff: "bind r f = Inr y \<longleftrightarrow> (\<exists>x. r = Inr x \<and> f x = Inr y)"
  by (cases r) auto

lemma getitem_Inr_iff: "getitem d k = Inr v \<longleftrightarrow> map_of d k = Some v"
  by (auto simp: getitem_def split: option.splits)

lemma getitem_Inl_iff: "getitem d k = Inl e \<longleftrightarrow> map_of d k = None \<and> e = KeyError k"
  by (auto simp: getitem_def split: option.splits)

lemma contains_map_of: "contains k d \<longleftrightarrow> map_of d k \<noteq> None"
  by (simp add: contains_def map_of_eq_None_iff)

subsection \<open>create_distributions\<close>

lemma loop_other_key:
  "create_distributions_loop labels dspec items acc = Inr ds \<Longrightarrow> name \<notin> fst ` set items
    \<Longrightarrow> map_of ds name = map_of acc name"
proof (induction items arbitrary: acc)
  case Nil
  then show ?case by simp
next
  case (Cons item items)
  obtain n a where item: "item = (n, a)" by (cases item)
  from Cons.prems(1) obtain r where
    r: "create_distribution labels dspec n a = Inr r"
    and rest: "create_distributions_loop labels dspec items
                 (case r of None \<Rightarrow> acc | Some d \<Rightarrow> AList.update n d acc) = Inr ds"
    by (auto simp: item bind_Inr_iff)
  from Cons.prems(2) have "name \<noteq> n" "name \<notin> fst ` set items" by (auto simp: item)
  with Cons.IH[OF rest] show ?case
    by (cases r) (simp_all add: update_conv')
qed

lemma loop_distinct:
  "create_distributions_loop labels dspec items acc = Inr ds \<Longrightarrow> distinct (map fst acc)
    \<Longrightarrow> distinct (map fst ds)"
proof (induction items arbitrary: acc)
  case Nil
  then show ?case by simp
next
  case (Cons item items)
  obtain n a where item: "item = (n, a)" by (cases item)
  from Cons.prems(1) obtain r where
    rest: "create_distributions_loop labels dspec items
                 (case r of None \<Rightarrow> acc | Some d \<Rightarrow> AList.update n d acc) = Inr ds"
    by (auto simp: item bind_Inr_iff)
  have "distinct (map fst (case r of None \<Rightarrow> acc | Some d \<Rightarrow> AList.update n d acc))"
    using Cons.prems(2) by (cases r) (simp_all add: distinct_update)
  with Cons.IH[OF rest] show ?case .
qed

lemma loop_entry:
  "create_distributions_loop labels dspec items acc = Inr ds \<Longrightarrow> distinct (map fst items)
    \<Longrightarrow> (name, action) \<in> set items
    \<Longrightarrow> \<exists>r. create_distribution labels dspec name action = Inr r
          \<and> map_of ds name = (case r of None \<Rightarrow> map_of acc name | Some d \<Rightarrow> Some d)"
proof (induction items arbitrary: acc)
  case Nil
  then show ?case by simp
next
  case (Cons item items)
  obtain n a where item: "item = (n, a)" by (cases item)
  from Cons.prems(1) obtain r where
    r: "create_distribution labels dspec n a = Inr r"
    and rest: "create_distributions_loop labels dspec items
                 (case r of None \<Rightarrow> acc | Some d \<Rightarrow> AList.update n d acc) = Inr ds"
    by (auto simp: item bind_Inr_iff)
  show ?case
  proof (cases "(name, action) = item")
    case True
    then have eq: "n = name" "a = action" by (simp_all add: item)
    from Cons.prems(2) have "name \<notin> fst ` set items" by (simp add: item eq)
    from loop_other_key[OF rest this] r show ?thesis
      by (cases r) (simp_all add: eq update_conv')
  next
    case False
    with Cons.prems(3) have mem: "(name, action) \<in> set items" by simp
    from Cons.prems(2) have d: "distinct (map fst items)" and "n \<notin> fst ` set items"
      by (simp_all add: item)
    with mem have "name \<noteq> n" by force
    with Cons.IH[OF rest d mem] show ?thesis
      by (cases r) (auto simp: update_conv' split: option.splits)
  qed
qed

lemma create_distribution_overridden:
  "overridden dspec name \<Longrightarrow> create_distribution labels dspec name action =
     Inr (Some (Distribution_from_spec (the (map_of (the dspec) name))
             (AList.update ''summary_labels'' (VLabels labels) action)))"
  unfolding create_distribution_def overridden_def
  by (auto simp: contains_map_of getitem_def Let_def)

lemma create_distribution_no_type:
  "\<not> overridden dspec name \<Longrightarrow> map_of action ''type'' = None \<Longrightarrow>
     create_distribution labels dspec name action = Inl (KeyError ''type'')"
  unfolding create_distribution_def overridden_def
  by (auto simp: getitem_def)

lemma create_distribution_bool:
  "\<not> overridden dspec name \<Longrightarrow> map_of action ''type'' = Some (VStr ''bool'') \<Longrightarrow>
     create_distribution labels dspec name action =
       (case map_of action ''shape'' of None \<Rightarrow> Inl (KeyError ''shape'')
        | Some shape \<Rightarrow> Inr (Some (Bernoulli shape labels)))"
  unfolding create_distribution_def overridden_def
  by (auto simp: getitem_def split: option.splits)

lemma create_distribution_int:
  "\<not> overridden dspec name \<Longrightarrow> map_of action ''type'' = Some (VStr ''int'') \<Longrightarrow>
     create_distribution labels dspec name action =
       (case map_of action ''shape'' of None \<Rightarrow> Inl (KeyError ''shape'')
        | Some shape \<Rightarrow>
           (case map_of action ''num_actions'' of None \<Rightarrow> Inl (KeyError ''num_actions'')
            | Some num_actions \<Rightarrow> Inr (Some (Categorical shape num_actions labels))))"
  unfolding create_distribution_def overridden_def
  by (auto simp: getitem_def split: option.splits)

lemma create_distribution_float:
  "\<not> overridden dspec name \<Longrightarrow> map_of action ''type'' = Some (VStr ''float'') \<Longrightarrow>
     create_distribution labels dspec name action =
       (case map_of action ''shape'' of None \<Rightarrow> Inl (KeyError ''shape'')
        | Some shape \<Rightarrow>
           (case map_of action ''min_value'' of None \<Rightarrow> Inr (Some (Gaussian shape labels))
            | Some min_value \<Rightarrow>
               (case map_of action ''max_value'' of None \<Rightarrow> Inl (KeyError ''max_value'')
                | Some max_value \<Rightarrow> Inr (Some (Beta shape min_value max_value labels)))))"
  unfolding create_distribution_def overridden_def
  by (auto simp: getitem_def contains_map_of split: option.splits)

lemma create_distribution_other:
  "\<not> overridden dspec name \<Longrightarrow> map_of action ''type'' = Some ty \<Longrightarrow>
   ty \<notin> {VStr ''bool'', VStr ''int'', VStr ''float''} \<Longrightarrow>
     create_distribution labels dspec name action = Inr None"
  unfolding create_distribution_def overridden_def
  by (auto simp: getitem_def)

lemma create_distribution_returns:
  "(\<exists>r. create_distribution labels dspec name action = Inr r)
    \<longleftrightarrow> overridden dspec name \<or> action_well_formed action"
proof (cases "overridden dspec name")
  case True
  then show ?thesis by (simp add: create_distribution_overridden)
next
  case no: False
  show ?thesis
  proof (cases "map_of action ''type''")
    case None
    with no show ?thesis
      by (simp add: create_distribution_no_type action_well_formed_def)
  next
    case (Some ty)
    consider "ty = VStr ''bool''" | "ty = VStr ''int''" | "ty = VStr ''float''"
      | "ty \<notin> {VStr ''bool'', VStr ''int'', VStr ''float''}" by blast
    then show ?thesis
    proof cases
      case 1
      with no Some show ?thesis
        by (simp add: create_distribution_bool action_well_formed_def contains_map_of
            split: option.splits)
    next
      case 2
      with no Some show ?thesis
        by (simp add: create_distribution_int action_well_formed_def contains_map_of
            split: option.splits)
    next
      case 3
      with no Some show ?thesis
        by (simp add: create_distribution_float action_well_formed_def contains_map_of
            split: option.splits)
    next
      case 4
      with no Some show ?thesis
        by (simp add: create_distribution_other action_well_formed_def)
    qed
  qed
qed

lemma create_distribution_choice:
  assumes "create_distribution labels dspec name action = Inr r"
    and "map_of action ''type'' = Some ty"
    and "ty \<in> {VStr ''bool'', VStr ''int'', VStr ''float''}"
  shows "r = Some
     (if overridden dspec name
      then Distribution_from_spec (the (map_of (the dspec) name))
             (AList.update ''summary_labels'' (VLabels labels) action)
      else if ty = VStr ''bool'' then Bernoulli (the (map_of action ''shape'')) labels
      else if ty = VStr ''int''
        then Categorical (the (map_of action ''shape'')) (the (map_of action ''num_actions''))
               labels
      else if contains ''min_value'' action
        then Beta (the (map_of action ''shape'')) (the (map_of action ''min_value''))
               (the (map_of action ''max_value'')) labels
      else Gaussian (the (map_of action ''shape'')) labels)"
proof (cases "overridden dspec name")
  case True
  with assms(1) show ?thesis by (simp add: create_distribution_overridden)
next
  case no: False
  from assms(3) consider "ty = VStr ''bool''" | "ty = VStr ''int''" | "ty = VStr ''float''"
    by blast
  then show ?thesis
  proof cases
    case 1
    with no assms(1,2) show ?thesis
      by (simp add: create_distribution_bool split: option.splits)
  next
    case 2
    with no assms(1,2) show ?thesis
      by (simp add: create_distribution_int split: option.splits)
  next
    case 3
    with no assms(1,2) show ?thesis
      by (simp add: create_distribution_float contains_map_of split: option.splits)
  qed
qed

lemma loop_returns:
  "(\<exists>ds. create_distributions_loop labels dspec items acc = Inr ds)
    \<longleftrightarrow> (\<forall>(name, action) \<in> set items. \<exists>r. create_distribution labels dspec name action = Inr r)"
proof (induction items arbitrary: acc)
  case Nil
  then show ?case by simp
next
  case (Cons item items)
  obtain n a where item: "item = (n, a)" by (cases item)
  show ?case
  proof (cases "create_distribution labels dspec n a")
    case (Inl e)
    then show ?thesis by (simp add: item)
  next
    case (Inr r)
    then show ?thesis using Cons.IH by (simp add: item)
  qed
qed

lemma bind_Inl_iff:
  "bind r f = Inl e \<longleftrightarrow> r = Inl e \<or> (\<exists>x. r = Inr x \<and> f x = Inl e)"
  by (cases r) auto

lemma create_distribution_error:
  "create_distribution labels dspec name action = Inl e \<Longrightarrow> \<exists>k. e = KeyError k"
  unfolding create_distribution_def
  by (auto simp: bind_Inl_iff getitem_def Let_def split: if_splits option.splits)

lemma create_distributions_loop_error:
  "create_distributions_loop labels dspec items acc = Inl e \<Longrightarrow> \<exists>k. e = KeyError k"
proof (induction items arbitrary: acc)
  case Nil
  then show ?case by simp
next
  case (Cons item items)
  obtain n a where item: "item = (n, a)" by (cases item)
  from Cons.prems consider "create_distribution labels dspec n a = Inl e"
    | r where "create_distributions_loop labels dspec items
                 (case r of None \<Rightarrow> acc | Some d \<Rightarrow> AList.update n d acc) = Inl e"
    by (auto simp: item bind_Inl_iff)
  then show ?case
  proof cases
    case 1
    then show ?thesis by (rule create_distribution_error)
  next
    case 2
    then show ?thesis by (rule Cons.IH)
  qed
qed

text \<open>
  Claim C2, as amended. \<^verbatim>\<open>create_distributions\<close> returns a dictionary exactly when every
  action that \<^verbatim>\<open>distributions_spec\<close> does not override carries the keys its branch
  reads (\<^verbatim>\<open>type\<close>; \<^verbatim>\<open>shape\<close> for the three types; \<^verbatim>\<open>num_actions\<close> for
  \<^verbatim>\<open>int\<close>; \<^verbatim>\<open>max_value\<close> for a \<^verbatim>\<open>float\<close> with \<^verbatim>\<open>min_value\<close>); otherwise it
  raises \<^verbatim>\<open>KeyError\<close>. Whenever it returns, the keys of the result are distinct and every
  action name of type \<^verbatim>\<open>bool\<close>, \<^verbatim>\<open>int\<close> or \<^verbatim>\<open>float\<close> is bound to: the distribution
  built from the entry of \<^verbatim>\<open>distributions_spec\<close> when that is not \<^verbatim>\<open>None\<close> and has the
  name; otherwise Bernoulli, Categorical, Beta (a float with \<^verbatim>\<open>min_value\<close>) or Gaussian.
\<close>

theorem create_distributions_choice:
  assumes "distinct (map fst (actions_spec self))"
  shows "((\<exists>ds. create_distributions self = Inr ds) \<longleftrightarrow>
            (\<forall>(name, action) \<in> set (actions_spec self).
               overridden (distributions_spec self) name \<or> action_well_formed action))
    \<and> (\<forall>ds name action ty.
          create_distributions self = Inr ds \<and> (name, action) \<in> set (actions_spec self)
          \<and> map_of action ''type'' = Some ty
          \<and> ty \<in> {VStr ''bool'', VStr ''int'', VStr ''float''}
          \<longrightarrow> distinct (map fst ds)
            \<and> map_of ds name = Some
               (if overridden (distributions_spec self) name
                then Distribution_from_spec (the (map_of (the (distributions_spec self)) name))
                       (AList.update ''summary_labels'' (VLabels (summary_labels self)) action)
                else if ty = VStr ''bool''
                  then Bernoulli (the (map_of action ''shape'')) (summary_labels self)
                else if ty = VStr ''int''
                  then Categorical (the (map_of action ''shape''))
                         (the (map_of action ''num_actions'')) (summary_labels self)
                else if contains ''min_value'' action
                  then Beta (the (map_of action ''shape'')) (the (map_of action ''min_value''))
                         (the (map_of action ''max_value'')) (summary_labels self)
                else Gaussian (the (map_of action ''shape'')) (summary_labels self)))
    \<and> (\<forall>e. create_distributions self = Inl e \<longrightarrow> (\<exists>k. e = KeyError k))"
proof (intro conjI allI impI)
  show "(\<exists>ds. create_distributions self = Inr ds) \<longleftrightarrow>
            (\<forall>(name, action) \<in> set (actions_spec self).
               overridden (distributions_spec self) name \<or> action_well_formed action)"
    unfolding create_distributions_def loop_returns
    by (simp add: create_distribution_returns)
next
  fix ds name action ty
  assume a: "create_distributions self = Inr ds \<and> (name, action) \<in> set (actions_spec self)
          \<and> map_of action ''type'' = Some ty
          \<and> ty \<in> {VStr ''bool'', VStr ''int'', VStr ''float''}"
  then have run: "create_distributions_loop (summary_labels self) (distributions_spec self)
       (actions_spec self) [] = Inr ds"
    by (simp add: create_distributions_def)
  from loop_distinct[OF run] show "distinct (map fst ds)" by simp
  from loop_entry[OF run assms] a obtain r where
    r: "create_distribution (summary_labels self) (distributions_spec self) name action = Inr r"
    and m: "map_of ds name = (case r of None \<Rightarrow> map_of [] name | Some d \<Rightarrow> Some d)"
    by blast
  from create_distribution_choice[OF r] a m
  show "map_of ds name = Some
               (if overridden (distributions_spec self) name
                then Distribution_from_spec (the (map_of (the (distributions_spec self)) name))
                       (AList.update ''summary_labels'' (VLabels (summary_labels self)) action)
                else if ty = VStr ''bool''
                  then Bernoulli (the (map_of action ''shape'')) (summary_labels self)
                else if ty = VStr ''int''
                  then Categorical (the (map_of action ''shape''))
                         (the (map_of action ''num_actions'')) (summary_labels self)
                else if contains ''min_value'' action
                  then Beta (the (map_of action ''shape'')) (the (map_of action ''min_value''))
                         (the (map_of action ''max_value'')) (summary_labels self)
                else Gaussian (the (map_of action ''shape'')) (summary_labels self))"
    by simp
next
  fix e
  assume "create_distributions self = Inl e"
  then show "\<exists>k. e = KeyError k"
    unfolding create_distributions_def by (rule create_distributions_loop_error)
qed

text \<open>
  The claim as stated fails on an \<^verbatim>\<open>int\<close> action without \<^verbatim>\<open>num_actions\<close>: the call
  raises \<^verbatim>\<open>KeyError\<close> and returns no dictionary.
\<close>

theorem create_distributions_counterexample:
  "map_of [(''type'', VStr ''int''), (''shape'', VTuple [])] ''type'' = Some (VStr ''int'')
   \<and> create_distributions
       (example_model\<lparr>actions_spec :=
          [(''action'', [(''type'', VStr ''int''), (''shape'', VTuple [])])]\<rparr>)
     = Inl (KeyError ''num_actions'')"
  by (simp add: example_model_def create_distributions_def create_distribution_def
      getitem_def contains_def)

theorem create_distributions_choice_witness:
  "distinct (map fst (actions_spec (example_model\<lparr>actions_spec := example_actions\<rparr>)))
   \<and> create_distributions (example_model\<lparr>actions_spec := example_actions\<rparr>)
       = Inr [(''flag'', Bernoulli (VTuple []) []),
              (''move'', Categorical (VTuple []) (VInt 3) [])]
   \<and> map_of [(''flag'', Bernoulli (VTuple []) []),
              (''move'', Categorical (VTuple []) (VInt 3) [])] ''move''
       = Some (Categorical (VTuple []) (VInt 3) [])"
proof -
  let ?m = "example_model\<lparr>actions_spec := example_actions\<rparr>"
  let ?a = "[(''type'', VStr ''int''), (''shape'', VTuple []), (''num_actions'', VInt 3)]"
  let ?ds = "[(''flag'', Bernoulli (VTuple []) []),
              (''move'', Categorical (VTuple []) (VInt 3) [])]"
  have d: "distinct (map fst (actions_spec ?m))"
    by (simp add: example_model_def example_actions_def)
  have run: "create_distributions ?m = Inr ?ds"
    by (simp add: example_model_def example_actions_def create_distributions_def
        create_distribution_def getitem_def contains_def)
  have mem: "(''move'', ?a) \<in> set (actions_spec ?m)"
    by (simp add: example_model_def example_actions_def)
  have ty: "map_of ?a ''type'' = Some (VStr ''int'')" by simp
  have no: "\<not> overridden (distributions_spec ?m) ''move''"
    by (simp add: overridden_def example_model_def)
  from create_distributions_choice[OF d] run mem ty no
  have "map_of ?ds ''move'' = Some (Categorical (the (map_of ?a ''shape''))
          (the (map_of ?a ''num_actions'')) (summary_labels ?m))"
    by fastforce
  with d run show ?thesis by (simp add: example_model_def)
qed

subsection \<open>The constructor\<close>

lemma float_not_ge0: "\<not> float_ge0 x \<longleftrightarrow> float_lt0 x \<or> x = NaN"
  by (cases x) auto

text \<open>
  Claim C5, as amended. The constructor raises its assertion failure if and only if
  \<^verbatim>\<open>entropy_regularization\<close> is not \<^verbatim>\<open>None\<close> and \<^verbatim>\<open>entropy_regularization >= 0.0\<close> is
  false, that is, the value is below zero or is NaN. For every accepted value the object
  handed to the superclass constructor holds the argument unchanged, and the constructor
  returns what the superclass constructor returns; the stored value is the argument
  whenever the superclass constructor leaves the attribute alone.
\<close>

theorem init_entropy_regularization:
  "(DistributionModel_init E self args net_arg distr_arg er det = Inl AssertionError
      \<longleftrightarrow> er \<noteq> None \<and> (float_lt0 (the er) \<or> the er = NaN))
   \<and> (\<forall>e. DistributionModel_init E self args net_arg distr_arg er det = Inl e
          \<longrightarrow> e = AssertionError)
   \<and> (er = None \<or> float_ge0 (the er) \<longrightarrow>
        (\<exists>self2. entropy_regularization self2 = er
           \<and> DistributionModel_init E self args net_arg distr_arg er det
               = Inr (super_init E self2 args)))
   \<and> ((\<forall>s. entropy_regularization (super_init E s args) = entropy_regularization s)
        \<and> (er = None \<or> float_ge0 (the er)) \<longrightarrow>
        (\<exists>m. DistributionModel_init E self args net_arg distr_arg er det = Inr m
           \<and> entropy_regularization m = er))"
proof (cases "er = None \<or> float_ge0 (the er)")
  case True
  let ?self2 = "self\<lparr>network_spec := net_arg, distributions_spec := distr_arg,
        entropy_regularization := er, requires_deterministic := det, network := None,
        distributions := None, fn_kl_divergence := None\<rparr>"
  from True have run: "DistributionModel_init E self args net_arg distr_arg er det
      = Inr (super_init E ?self2 args)"
    by (simp add: DistributionModel_init_def Let_def)
  have stored: "entropy_regularization ?self2 = er" by simp
  from True have acc: "\<not> (er \<noteq> None \<and> (float_lt0 (the er) \<or> the er = NaN))"
    using float_not_ge0[of "the er"] by auto
  show ?thesis
    unfolding run using acc stored by (intro conjI) (simp, simp, blast, simp)
next
  case False
  then have run: "DistributionModel_init E self args net_arg distr_arg er det
      = Inl AssertionError"
    by (simp add: DistributionModel_init_def Let_def)
  from False have rej: "er \<noteq> None \<and> (float_lt0 (the er) \<or> the er = NaN)"
    by (simp add: float_not_ge0)
  show ?thesis
    unfolding run using rej False by simp
qed

text \<open>
  The claim as stated fails at NaN: the assertion fails although
  \<^verbatim>\<open>entropy_regularization < 0.0\<close> is false.
\<close>

theorem init_entropy_regularization_counterexample:
  "\<not> float_lt0 NaN
   \<and> DistributionModel_init example_env example_model example_args (VTuple []) None
       (Some NaN) False = Inl AssertionError"
  by (simp add: DistributionModel_init_def)

theorem init_entropy_regularization_witness:
  "float_ge0 (Finite (1 / 100))
   \<and> DistributionModel_init example_env example_model example_args (VTuple []) None
       (Some (Finite (1 / 100))) True \<noteq> Inl AssertionError
   \<and> DistributionModel_init example_env example_model example_args (VTuple []) None
       (Some (Finite (1 / 100))) True
     = Inr (example_model\<lparr>network_spec := VTuple [], distributions_spec := None,
              entropy_regularization := Some (Finite (1 / 100)),
              requires_deterministic := True, actions_spec := example_actions\<rparr>)"
proof -
  have acc: "float_ge0 (Finite (1 / 100))" by simp
  from init_entropy_regularization[of example_env example_model example_args "VTuple []" None
      "Some (Finite (1 / 100))" True] acc
  have "DistributionModel_init example_env example_model example_args (VTuple []) None
       (Some (Finite (1 / 100))) True \<noteq> Inl AssertionError"
    by simp
  moreover have "DistributionModel_init example_env example_model example_args (VTuple [])
       None (Some (Finite (1 / 100))) True
     = Inr (example_model\<lparr>network_spec := VTuple [], distributions_spec := None,
              entropy_regularization := Some (Finite (1 / 100)),
              requires_deterministic := True, actions_spec := example_actions\<rparr>)"
    by (simp add: DistributionModel_init_def example_env_def example_model_def)
  ultimately show ?thesis using acc by simp
qed

subsection \<open>initialize and optimizer_arguments\<close>

text \<open>
  Claim C10. \<^verbatim>\<open>initialize\<close> raises the assertion failure whenever \<^verbatim>\<open>internals_spec\<close>
  is non-empty on entry, and never when it is empty. When it succeeds, \<^verbatim>\<open>internals_spec\<close>
  was empty on entry, the object handed to the superclass \<^verbatim>\<open>initialize\<close> holds the
  \<^verbatim>\<open>internals_spec()\<close> of the network just created, and so does the resulting object
  provided the superclass \<^verbatim>\<open>initialize\<close> leaves that attribute alone. With an empty
  \<^verbatim>\<open>internals_spec\<close> it succeeds exactly when \<^verbatim>\<open>create_distributions\<close> returns.
\<close>

theorem initialize_internals_spec:
  "(internals_spec self \<noteq> [] \<longrightarrow> initialize E self custom_getter = Inl AssertionError)
   \<and> (internals_spec self = [] \<longrightarrow> initialize E self custom_getter \<noteq> Inl AssertionError)
   \<and> (internals_spec self = [] \<longrightarrow>
        ((\<exists>self'. initialize E self custom_getter = Inr self') \<longleftrightarrow>
         (\<exists>ds. create_distributions
            (super_initialize E
               (self\<lparr>network := Some (Network_from_spec (network_spec self)
                           [(''summary_labels'', VLabels (summary_labels self))]),
                     internals_spec := network_internals_spec E
                        (Network_from_spec (network_spec self)
                           [(''summary_labels'', VLabels (summary_labels self))])\<rparr>)
               custom_getter) = Inr ds)))
   \<and> (\<forall>self'. initialize E self custom_getter = Inr self' \<longrightarrow>
        internals_spec self = []
        \<and> (\<exists>self2 ds. network self2 = Some (Network_from_spec (network_spec self)
                           [(''summary_labels'', VLabels (summary_labels self))])
              \<and> internals_spec self2 = network_internals_spec E
                   (Network_from_spec (network_spec self)
                      [(''summary_labels'', VLabels (summary_labels self))])
              \<and> self' = (super_initialize E self2 custom_getter)
                   \<lparr>distributions := Some ds,
                    fn_kl_divergence := Some (Make_template ''kl-divergence''
                       ''tf_kl_divergence'' custom_getter)\<rparr>)
        \<and> ((\<forall>s. internals_spec (super_initialize E s custom_getter) = internals_spec s)
             \<longrightarrow> internals_spec self' = network_internals_spec E
                   (Network_from_spec (network_spec self)
                      [(''summary_labels'', VLabels (summary_labels self))])))"
proof (cases "internals_spec self = []")
  case False
  then have "initialize E self custom_getter = Inl AssertionError"
    by (simp add: initialize_def Let_def)
  with False show ?thesis by simp
next
  case True
  let ?net = "Network_from_spec (network_spec self)
                [(''summary_labels'', VLabels (summary_labels self))]"
  let ?self2 = "self\<lparr>network := Some ?net, internals_spec := network_internals_spec E ?net\<rparr>"
  let ?self3 = "super_initialize E ?self2 custom_getter"
  let ?tpl = "Some (Make_template ''kl-divergence'' ''tf_kl_divergence'' custom_getter)"
  have run: "initialize E self custom_getter =
      bind (create_distributions ?self3)
        (\<lambda>ds. Inr (?self3\<lparr>distributions := Some ds, fn_kl_divergence := ?tpl\<rparr>))"
    using True by (simp add: initialize_def Let_def)
  show ?thesis
  proof (cases "create_distributions ?self3")
    case (Inl e)
    then obtain k where "e = KeyError k"
      unfolding create_distributions_def by (auto dest: create_distributions_loop_error)
    with Inl have r: "initialize E self custom_getter = Inl (KeyError k)"
      by (simp add: run)
    show ?thesis
      unfolding r using True Inl by simp
  next
    case (Inr ds)
    then have r: "initialize E self custom_getter =
        Inr (?self3\<lparr>distributions := Some ds, fn_kl_divergence := ?tpl\<rparr>)"
      by (simp add: run)
    have part: "\<exists>self2 ds'. network self2 = Some ?net
        \<and> internals_spec self2 = network_internals_spec E ?net
        \<and> ?self3\<lparr>distributions := Some ds, fn_kl_divergence := ?tpl\<rparr>
            = (super_initialize E self2 custom_getter)
                \<lparr>distributions := Some ds', fn_kl_divergence := ?tpl\<rparr>"
      by (rule exI[of _ ?self2], rule exI[of _ ds]) simp
    show ?thesis
      unfolding r using True Inr part by simp
  qed
qed

theorem initialize_internals_spec_witness:
  "internals_spec (example_model\<lparr>actions_spec := example_actions\<rparr>) = []
   \<and> internals_spec (example_model\<lparr>internals_spec := [(''state'', VTuple [])]\<rparr>) \<noteq> []
   \<and> initialize example_env (example_model\<lparr>internals_spec := [(''state'', VTuple [])]\<rparr>)
        (VStr ''getter'') = Inl AssertionError
   \<and> initialize example_env (example_model\<lparr>actions_spec := example_actions\<rparr>)
        (VStr ''getter'')
      = Inr (example_model\<lparr>actions_spec := example_actions,
               network := Some (Network_from_spec (VTuple []) [(''summary_labels'', VLabels [])]),
               internals_spec := [(''lstm'', VTuple [])],
               distributions := Some [(''flag'', Bernoulli (VTuple []) []),
                                      (''move'', Categorical (VTuple []) (VInt 3) [])],
               fn_kl_divergence := Some (Make_template ''kl-divergence''
                  ''tf_kl_divergence'' (VStr ''getter''))\<rparr>)"
proof -
  let ?bad = "example_model\<lparr>internals_spec := [(''state'', VTuple [])]\<rparr>"
  let ?m = "example_model\<lparr>actions_spec := example_actions\<rparr>"
  have ne: "internals_spec ?bad \<noteq> []" by simp
  have em: "internals_spec ?m = []" by (simp add: example_model_def)
  from initialize_internals_spec[of ?bad example_env "VStr ''getter''"] ne
  have bad: "initialize example_env ?bad (VStr ''getter'') = Inl AssertionError"
    by blast
  have good: "initialize example_env ?m (VStr ''getter'')
      = Inr (example_model\<lparr>actions_spec := example_actions,
               network := Some (Network_from_spec (VTuple []) [(''summary_labels'', VLabels [])]),
               internals_spec := [(''lstm'', VTuple [])],
               distributions := Some [(''flag'', Bernoulli (VTuple []) []),
                                      (''move'', Categorical (VTuple []) (VInt 3) [])],
               fn_kl_divergence := Some (Make_template ''kl-divergence''
                  ''tf_kl_divergence'' (VStr ''getter''))\<rparr>)"
    by (simp add: initialize_def example_env_def example_model_def example_actions_def
        create_distributions_def create_distribution_def getitem_def contains_def)
  from ne em bad good show ?thesis by simp
qed

text \<open>
  Claim C7. \<^verbatim>\<open>optimizer_arguments\<close> binds \<^verbatim>\<open>fn_kl_divergence\<close> to the model's
  KL-divergence template and leaves every other key of the superclass result as it is; the
  keys of the result are those of the superclass result and \<^verbatim>\<open>fn_kl_divergence\<close>. When the
  superclass result does not already hold that key, the result is the superclass result
  followed by that one new entry.
\<close>

theorem optimizer_arguments_frame:
  "map_of (optimizer_arguments E self x ints acts terminal reward nx nints)
       ''fn_kl_divergence'' = Some (Fn (fn_kl_divergence self))
   \<and> (\<forall>k. k \<noteq> ''fn_kl_divergence'' \<longrightarrow>
         map_of (optimizer_arguments E self x ints acts terminal reward nx nints) k
           = map_of (super_optimizer_arguments E self x ints acts terminal reward nx nints) k)
   \<and> fst ` set (optimizer_arguments E self x ints acts terminal reward nx nints)
       = insert ''fn_kl_divergence''
           (fst ` set (super_optimizer_arguments E self x ints acts terminal reward nx nints))
   \<and> (\<not> contains ''fn_kl_divergence''
            (super_optimizer_arguments E self x ints acts terminal reward nx nints) \<longrightarrow>
        optimizer_arguments E self x ints acts terminal reward nx nints
          = super_optimizer_arguments E self x ints acts terminal reward nx nints
              @ [(''fn_kl_divergence'', Fn (fn_kl_divergence self))])"
proof -
  let ?sup = "super_optimizer_arguments E self x ints acts terminal reward nx nints"
  have res: "optimizer_arguments E self x ints acts terminal reward nx nints
      = AList.update ''fn_kl_divergence'' (Fn (fn_kl_divergence self)) ?sup"
    by (simp add: optimizer_arguments_def)
  have fresh: "k \<notin> fst ` set al \<Longrightarrow> AList.update k v al = al @ [(k, v)]"
    for k :: string and v :: argument and al
    by (induction al) auto
  show ?thesis
    unfolding res
    by (auto simp: update_conv' dom_update contains_def fresh simp flip: dom_map_of_conv_image_fst)
qed

theorem optimizer_arguments_frame_witness:
  "\<not> contains ''fn_kl_divergence''
       (super_optimizer_arguments example_env example_model [] [] [] (Tensor ''terminal'')
          (Tensor ''reward'') [] [])
   \<and> optimizer_arguments example_env example_model [] [] [] (Tensor ''terminal'')
       (Tensor ''reward'') [] []
     = [(''time'', Argument (VInt 0)), (''fn_kl_divergence'', Fn None)]"
proof -
  have no: "\<not> contains ''fn_kl_divergence''
       (super_optimizer_arguments example_env example_model [] [] [] (Tensor ''terminal'')
          (Tensor ''reward'') [] [])"
    by (simp add: example_env_def contains_def)
  from optimizer_arguments_frame[of example_env example_model "[]" "[]" "[]"
      "Tensor ''terminal''" "Tensor ''reward''" "[]" "[]"] no
  have "optimizer_arguments example_env example_model [] [] [] (Tensor ''terminal'')
       (Tensor ''reward'') [] []
     = super_optimizer_arguments example_env example_model [] [] [] (Tensor ''terminal'')
          (Tensor ''reward'') [] [] @ [(''fn_kl_divergence'', Fn (fn_kl_divergence example_model))]"
    by blast
  with no show ?thesis by (simp add: example_env_def example_model_def)
qed

subsection \<open>The loop of tf_actions_and_internals\<close>

lemma apply_calls_append: "apply_calls (xs @ ys) = apply_calls xs @ apply_calls ys"
  by (induction xs rule: apply_calls.induct) simp_all

lemma parameterize_calls_append:
  "parameterize_calls (xs @ ys) = parameterize_calls xs @ parameterize_calls ys"
  by (induction xs rule: parameterize_calls.induct) simp_all

lemma sample_calls_append: "sample_calls (xs @ ys) = sample_calls xs @ sample_calls ys"
  by (induction xs rule: sample_calls.induct) simp_all

lemma named_tensor_calls_append:
  "named_tensor_calls (xs @ ys) = named_tensor_calls xs @ named_tensor_calls ys"
  by (induction xs rule: named_tensor_calls.induct) simp_all

lemma kl_divergence_calls_append:
  "kl_divergence_calls (xs @ ys) = kl_divergence_calls xs @ kl_divergence_calls ys"
  by (induction xs rule: kl_divergence_calls.induct) simp_all

lemma actions_loop_full:
  assumes "\<forall>(name, d) \<in> set items. 3 \<le> length (parameterize E d emb)"
  shows "actions_loop E net det req n emb items acts =
     (concat (map (body_events E net (det \<or> req) n emb) items),
      Inr (fold (\<lambda>(name, d). AList.update name (sample E d (parameterize E d emb) (det \<or> req)))
             items acts))"
  using assms
proof (induction items arbitrary: acts)
  case Nil
  then show ?case by simp
next
  case (Cons item items)
  obtain name d where item: "item = (name, d)" by (cases item)
  from Cons.prems have len: "3 \<le> length (parameterize E d emb)"
    and rest: "\<forall>(name, d) \<in> set items. 3 \<le> length (parameterize E d emb)"
    by (simp_all add: item)
  from len have ix: "index (parameterize E d emb) 0 = Inr (parameterize E d emb ! 0)"
    "index (parameterize E d emb) 1 = Inr (parameterize E d emb ! 1)"
    "index (parameterize E d emb) 2 = Inr (parameterize E d emb ! 2)"
    by (auto simp: index_def)
  show ?case
    unfolding item
    by (simp add: ix Let_def Cons.IH[OF rest] body_events_def del: One_nat_def)
qed

lemma actions_loop_events_subset:
  "set (fst (actions_loop E net det req n emb items acts))
    \<subseteq> set (concat (map (body_events E net (det \<or> req) n emb) items))"
proof (induction items arbitrary: acts)
  case Nil
  then show ?case by simp
next
  case (Cons item items)
  obtain name d where item: "item = (name, d)" by (cases item)
  let ?ps = "parameterize E d emb"
  let ?acts1 = "AList.update name (sample E d ?ps (det \<or> req)) acts"
  consider "length ?ps = 0" | "length ?ps = 1" | "length ?ps = 2" | "3 \<le> length ?ps"
    by linarith
  then show ?case
  proof cases
    case 1
    then show ?thesis
      unfolding item by (simp add: Let_def body_events_def index_def)
  next
    case 2
    then show ?thesis
      unfolding item by (simp add: Let_def body_events_def index_def)
  next
    case 3
    then show ?thesis
      unfolding item by (simp add: Let_def body_events_def index_def)
  next
    case 4
    then have ix: "index ?ps 0 = Inr (?ps ! 0)" "index ?ps 1 = Inr (?ps ! 1)"
      "index ?ps 2 = Inr (?ps ! 2)"
      by (auto simp: index_def)
    obtain evs r where run: "actions_loop E net det req n emb items ?acts1 = (evs, r)"
      by (cases "actions_loop E net det req n emb items ?acts1")
    from Cons.IH[of ?acts1] run
    have "set evs \<subseteq> set (concat (map (body_events E net (det \<or> req) n emb) items))"
      by simp
    moreover have "actions_loop E net det req n emb ((name, d) # items) acts =
        (body_events E net (det \<or> req) n emb (name, d) @ evs, r)"
      by (simp add: ix run Let_def body_events_def del: One_nat_def)
    ultimately show ?thesis
      unfolding item by auto
  qed
qed

lemma fold_update_fresh:
  "distinct (map fst items) \<Longrightarrow> fst ` set acts \<inter> fst ` set items = {} \<Longrightarrow>
   fold (\<lambda>(name, d). AList.update name (g name d)) items acts
     = acts @ map (\<lambda>(name, d). (name, g name d)) items"
proof (induction items arbitrary: acts)
  case Nil
  then show ?case by simp
next
  case (Cons item items)
  obtain name d where item: "item = (name, d)" by (cases item)
  from Cons.prems have fresh: "name \<notin> fst ` set acts" by (auto simp: item)
  then have upd: "AList.update name (g name d) acts = acts @ [(name, g name d)]"
    by (induction acts) auto
  have "fst ` set (acts @ [(name, g name d)]) \<inter> fst ` set items = {}"
    using Cons.prems by (auto simp: item)
  moreover have "distinct (map fst items)" using Cons.prems by simp
  ultimately show ?case
    using Cons.IH[of "acts @ [(name, g name d)]"] by (simp add: item upd)
qed

lemma sample_calls_mem: "(d, ps, flag) \<in> set (sample_calls evs) \<longleftrightarrow> Sample d ps flag \<in> set evs"
  by (induction evs rule: sample_calls.induct) auto

lemma parameterize_calls_mem:
  "(d, t) \<in> set (parameterize_calls evs) \<longleftrightarrow> Parameterize d t \<in> set evs"
  by (induction evs rule: parameterize_calls.induct) auto

lemma named_tensor_calls_mem:
  "(k, t) \<in> set (named_tensor_calls evs) \<longleftrightarrow> (\<exists>net. Network_set_named_tensor net k t \<in> set evs)"
  by (induction evs rule: named_tensor_calls.induct) auto

lemma body_events_mem:
  "e \<in> set (concat (map (body_events E net flag n emb) items)) \<longleftrightarrow>
    (\<exists>(name, d) \<in> set items. e \<in> set (body_events E net flag n emb (name, d)))"
  by auto

lemma sample_calls_body:
  "sample_calls (concat (map (body_events E net flag n emb) items))
    = map (\<lambda>(name, d). (d, parameterize E d emb, flag)) items"
  by (induction items) (auto simp: sample_calls_append body_events_def)

lemma parameterize_calls_body:
  "parameterize_calls (concat (map (body_events E net flag n emb) items))
    = map (\<lambda>(name, d). (d, emb)) items"
  by (induction items) (auto simp: parameterize_calls_append body_events_def)

lemma apply_calls_body:
  "apply_calls (concat (map (body_events E net flag n emb) items)) = []"
  by (induction items) (auto simp: apply_calls_append body_events_def)

lemma named_tensor_calls_body:
  "named_tensor_calls (concat (map (body_events E net flag n emb) items))
    = concat (map (\<lambda>(name, d).
        [((if n > 1 then name @ ''_'' else []) @ ''logits'', parameterize E d emb ! 0),
         ((if n > 1 then name @ ''_'' else []) @ ''probabilities'', parameterize E d emb ! 1),
         ((if n > 1 then name @ ''_'' else []) @ ''state_value'', parameterize E d emb ! 2)])
        items)"
  by (induction items)
     (auto simp: named_tensor_calls_append body_events_def simp del: One_nat_def)

lemma apply_calls_subset_nil:
  "set evs \<subseteq> set evs' \<Longrightarrow> apply_calls evs' = [] \<Longrightarrow> apply_calls evs = []"
proof (induction evs rule: apply_calls.induct)
  case (2 net x ints upd ri evs)
  then have "Network_apply net x ints upd ri \<in> set evs'" by simp
  then have "apply_calls evs' \<noteq> []"
    by (induction evs' rule: apply_calls.induct) auto
  with 2 show ?case by simp
qed simp_all

lemma actions_loop_flag:
  "(det \<or> req) = (det' \<or> req) \<Longrightarrow>
   actions_loop E net det req n emb items acts = actions_loop E net det' req n emb items acts"
proof (induction items arbitrary: acts)
  case Nil
  then show ?case by simp
next
  case (Cons item items)
  obtain name d where item: "item = (name, d)" by (cases item)
  show ?case
    unfolding item actions_loop.simps Cons.prems Cons.IH[OF Cons.prems] ..
qed

lemma tf_actions_and_internals_none:
  "network self = None \<Longrightarrow>
   tf_actions_and_internals E self x ints det = ([], Inl AttributeError)"
  by (simp add: tf_actions_and_internals_def)

lemma tf_actions_and_internals_no_distributions:
  "network self = Some net \<Longrightarrow> distributions self = None \<Longrightarrow>
   tf_actions_and_internals E self x ints det
     = ([Network_apply net x ints False True], Inl AttributeError)"
  by (simp add: tf_actions_and_internals_def split: prod.splits)

lemma tf_actions_and_internals_some:
  "network self = Some net \<Longrightarrow> distributions self = Some ds \<Longrightarrow>
   tf_actions_and_internals E self x ints det
     = (Network_apply net x ints False True
          # fst (actions_loop E net det (requires_deterministic self) (length ds)
                   (fst (network_apply E net x ints False True)) ds []),
        bind (snd (actions_loop E net det (requires_deterministic self) (length ds)
                   (fst (network_apply E net x ints False True)) ds []))
          (\<lambda>acts. Inr (acts, snd (network_apply E net x ints False True))))"
  by (simp add: tf_actions_and_internals_def split: prod.splits)

lemma tf_actions_and_internals_events_subset:
  "network self = Some net \<Longrightarrow> distributions self = Some ds \<Longrightarrow>
   set (fst (tf_actions_and_internals E self x ints det))
     \<subseteq> insert (Network_apply net x ints False True)
         (set (concat (map (body_events E net (det \<or> requires_deterministic self) (length ds)
                 (fst (network_apply E net x ints False True))) ds)))"
  using actions_loop_events_subset[of E net det "requires_deterministic self" "length ds"
      "fst (network_apply E net x ints False True)" ds "[]"]
  by (auto simp: tf_actions_and_internals_some)

lemma tf_actions_and_internals_full:
  assumes "network self = Some net" "distributions self = Some ds"
    and "\<forall>(name, d) \<in> set ds. 3 \<le> length (parameterize E d (fst (network_apply E net x ints False True)))"
  shows "tf_actions_and_internals E self x ints det
     = (Network_apply net x ints False True
          # concat (map (body_events E net (det \<or> requires_deterministic self) (length ds)
                 (fst (network_apply E net x ints False True))) ds),
        Inr (fold (\<lambda>(name, d). AList.update name
                      (sample E d (parameterize E d (fst (network_apply E net x ints False True)))
                         (det \<or> requires_deterministic self))) ds [],
             snd (network_apply E net x ints False True)))"
  by (simp add: tf_actions_and_internals_some[OF assms(1,2)] actions_loop_full[OF assms(3)])

subsection \<open>tf_actions_and_internals\<close>

lemma sample_event_flag:
  "Sample d ps flag \<in> set (fst (tf_actions_and_internals E self x ints det))
    \<Longrightarrow> flag = (det \<or> requires_deterministic self)"
proof (cases "network self")
  case None
  then show "Sample d ps flag \<in> set (fst (tf_actions_and_internals E self x ints det))
    \<Longrightarrow> flag = (det \<or> requires_deterministic self)"
    by (simp add: tf_actions_and_internals_none)
next
  case (Some net)
  assume mem: "Sample d ps flag \<in> set (fst (tf_actions_and_internals E self x ints det))"
  show "flag = (det \<or> requires_deterministic self)"
  proof (cases "distributions self")
    case None
    with Some mem show ?thesis
      by (simp add: tf_actions_and_internals_no_distributions)
  next
    case (Some ds)
    from tf_actions_and_internals_events_subset[OF \<open>network self = Some net\<close> Some] mem
    have "Sample d ps flag \<in> set (concat (map (body_events E net
            (det \<or> requires_deterministic self) (length ds)
            (fst (network_apply E net x ints False True))) ds))"
      by blast
    then show ?thesis
      by (auto simp: body_events_def)
  qed
qed

lemma fold_update_from_empty:
  "distinct (map fst items) \<Longrightarrow>
   fold (\<lambda>(name, d). AList.update name (g name d)) items []
     = map (\<lambda>(name, d). (name, g name d)) items"
  using fold_update_fresh[of items "[]" g] by simp

text \<open>
  Claim C1. Every \<^verbatim>\<open>sample\<close> call made by \<^verbatim>\<open>tf_actions_and_internals\<close> carries the
  flag \<^verbatim>\<open>deterministic or requires_deterministic\<close>. On an initialised model whose
  distributions yield parameter tuples of at least three components, \<^verbatim>\<open>sample\<close> is
  called once per distribution, in order, with that flag, and the returned action of each
  name is the result of that call. Hence, when \<^verbatim>\<open>requires_deterministic\<close> is true, every
  call is deterministic and the outcome does not depend on the \<^verbatim>\<open>deterministic\<close> argument.
\<close>

theorem sample_flag_is_disjunction:
  "(\<forall>d ps flag. Sample d ps flag \<in> set (fst (tf_actions_and_internals E self x ints det))
       \<longrightarrow> flag = (det \<or> requires_deterministic self))
   \<and> (network self = Some net \<and> distributions self = Some ds
       \<and> (\<forall>(name, d) \<in> set ds. 3 \<le> length (parameterize E d (shared_embedding E net x ints)))
       \<longrightarrow> sample_calls (fst (tf_actions_and_internals E self x ints det))
             = map (\<lambda>(name, d). (d, parameterize E d (shared_embedding E net x ints),
                                  det \<or> requires_deterministic self)) ds
           \<and> (distinct (map fst ds) \<longrightarrow>
                snd (tf_actions_and_internals E self x ints det)
                  = Inr (map (\<lambda>(name, d).
                           (name, sample E d (parameterize E d (shared_embedding E net x ints))
                                    (det \<or> requires_deterministic self))) ds,
                         snd (network_apply E net x ints False True))))
   \<and> (requires_deterministic self
       \<longrightarrow> tf_actions_and_internals E self x ints det
             = tf_actions_and_internals E self x ints True
           \<and> (\<forall>d ps flag.
                 Sample d ps flag \<in> set (fst (tf_actions_and_internals E self x ints det))
                 \<longrightarrow> flag))"
proof (intro conjI allI impI)
  fix d ps flag
  assume "Sample d ps flag \<in> set (fst (tf_actions_and_internals E self x ints det))"
  then show "flag = (det \<or> requires_deterministic self)" by (rule sample_event_flag)
next
  assume a: "network self = Some net \<and> distributions self = Some ds
       \<and> (\<forall>(name, d) \<in> set ds. 3 \<le> length (parameterize E d (shared_embedding E net x ints)))"
  then have full: "tf_actions_and_internals E self x ints det
     = (Network_apply net x ints False True
          # concat (map (body_events E net (det \<or> requires_deterministic self) (length ds)
                 (shared_embedding E net x ints)) ds),
        Inr (fold (\<lambda>(name, d). AList.update name
                      (sample E d (parameterize E d (shared_embedding E net x ints))
                         (det \<or> requires_deterministic self))) ds [],
             snd (network_apply E net x ints False True)))"
    unfolding shared_embedding_def by (intro tf_actions_and_internals_full) simp_all
  show "sample_calls (fst (tf_actions_and_internals E self x ints det))
             = map (\<lambda>(name, d). (d, parameterize E d (shared_embedding E net x ints),
                                  det \<or> requires_deterministic self)) ds"
    by (simp add: full sample_calls_body)
  assume "distinct (map fst ds)"
  then show "snd (tf_actions_and_internals E self x ints det)
                  = Inr (map (\<lambda>(name, d).
                           (name, sample E d (parameterize E d (shared_embedding E net x ints))
                                    (det \<or> requires_deterministic self))) ds,
                         snd (network_apply E net x ints False True))"
    by (simp add: full fold_update_from_empty)
next
  assume req: "requires_deterministic self"
  then have eq: "actions_loop E net det (requires_deterministic self) n emb items acts
      = actions_loop E net True (requires_deterministic self) n emb items acts"
    for n emb items acts net
    by (intro actions_loop_flag) simp
  show "tf_actions_and_internals E self x ints det
             = tf_actions_and_internals E self x ints True"
    by (simp add: tf_actions_and_internals_def eq split: option.splits prod.splits)
  fix d ps flag
  assume "Sample d ps flag \<in> set (fst (tf_actions_and_internals E self x ints det))"
  from sample_event_flag[OF this] req show flag by simp
qed

theorem sample_flag_is_disjunction_witness:
  "network (example_initialized\<lparr>requires_deterministic := True\<rparr>) = Some example_network
   \<and> distributions (example_initialized\<lparr>requires_deterministic := True\<rparr>)
       = Some example_distributions
   \<and> distinct (map fst example_distributions)
   \<and> requires_deterministic (example_initialized\<lparr>requires_deterministic := True\<rparr>)
   \<and> sample_calls (fst (tf_actions_and_internals example_env
         (example_initialized\<lparr>requires_deterministic := True\<rparr>) [] [] False))
       = [(Bernoulli (VTuple []) [], example_parameters, True),
          (Categorical (VTuple []) (VInt 3) [], example_parameters, True)]
   \<and> snd (tf_actions_and_internals example_env
         (example_initialized\<lparr>requires_deterministic := True\<rparr>) [] [] False)
       = Inr ([(''flag'', Tensor ''mode''), (''move'', Tensor ''mode'')], [])"
proof -
  let ?m = "example_initialized\<lparr>requires_deterministic := True\<rparr>"
  have n: "network ?m = Some example_network"
    and ds: "distributions ?m = Some example_distributions"
    and req: "requires_deterministic ?m"
    by (simp_all add: example_initialized_def)
  have dist: "distinct (map fst example_distributions)"
    by (simp add: example_distributions_def)
  have len: "\<forall>(name, d) \<in> set example_distributions.
      3 \<le> length (parameterize example_env d (shared_embedding example_env example_network [] []))"
    by (simp add: example_env_def)
  from sample_flag_is_disjunction[of example_env ?m "[]" "[]" False example_network
      example_distributions] n ds len dist
  have "sample_calls (fst (tf_actions_and_internals example_env ?m [] [] False))
       = map (\<lambda>(name, d). (d, parameterize example_env d
                (shared_embedding example_env example_network [] []),
                False \<or> requires_deterministic ?m)) example_distributions"
    and "snd (tf_actions_and_internals example_env ?m [] [] False)
       = Inr (map (\<lambda>(name, d).
                (name, sample example_env d (parameterize example_env d
                   (shared_embedding example_env example_network [] []))
                   (False \<or> requires_deterministic ?m))) example_distributions,
              snd (network_apply example_env example_network [] [] False True))"
    by blast+
  then show ?thesis
    using n ds dist req
    by (simp add: example_env_def example_distributions_def example_parameters_def
        example_initialized_def)
qed

lemma parameterize_event_embedding:
  assumes "network self = Some net"
    and "Parameterize d t \<in> set (fst (tf_actions_and_internals E self x ints det))"
  shows "t = shared_embedding E net x ints"
proof (cases "distributions self")
  case None
  with assms show ?thesis by (simp add: tf_actions_and_internals_no_distributions)
next
  case (Some ds)
  from tf_actions_and_internals_events_subset[OF assms(1) Some] assms(2)
  have "Parameterize d t \<in> set (concat (map (body_events E net
          (det \<or> requires_deterministic self) (length ds)
          (fst (network_apply E net x ints False True))) ds))"
    by blast
  then show ?thesis
    by (auto simp: body_events_def shared_embedding_def)
qed

lemma apply_called_once:
  assumes "network self = Some net"
  shows "apply_calls (fst (tf_actions_and_internals E self x ints det))
    = [(net, x, ints, False, True)]"
proof (cases "distributions self")
  case None
  with assms show ?thesis by (simp add: tf_actions_and_internals_no_distributions)
next
  case (Some ds)
  have "apply_calls (fst (actions_loop E net det (requires_deterministic self) (length ds)
          (fst (network_apply E net x ints False True)) ds [])) = []"
    by (rule apply_calls_subset_nil[OF actions_loop_events_subset apply_calls_body])
  then show ?thesis
    by (simp add: tf_actions_and_internals_some[OF assms Some])
qed

lemma returned_internals:
  assumes "network self = Some net"
    and "snd (tf_actions_and_internals E self x ints det) = Inr (acts, ints')"
  shows "ints' = snd (network_apply E net x ints False True)"
proof (cases "distributions self")
  case None
  with assms show ?thesis by (simp add: tf_actions_and_internals_no_distributions)
next
  case (Some ds)
  with assms show ?thesis
    by (auto simp: tf_actions_and_internals_some bind_Inr_iff)
qed

text \<open>
  Claim C6. On a model that holds a network, \<^verbatim>\<open>tf_actions_and_internals\<close> calls the
  network's \<^verbatim>\<open>apply\<close> exactly once (with \<^verbatim>\<open>update\<close> false and \<^verbatim>\<open>return_internals\<close>
  true), every \<^verbatim>\<open>parameterize\<close> call receives the embedding that call returned, and the
  internals returned are those that call returned. On an initialised model whose
  distributions yield parameter tuples of at least three components, every distribution
  is parameterized once, in order, from that embedding, and the function returns.
\<close>

theorem network_applied_once:
  "(network self = Some net \<longrightarrow>
      apply_calls (fst (tf_actions_and_internals E self x ints det))
        = [(net, x, ints, False, True)]
      \<and> (\<forall>d t. Parameterize d t \<in> set (fst (tf_actions_and_internals E self x ints det))
            \<longrightarrow> t = shared_embedding E net x ints)
      \<and> (\<forall>acts ints'. snd (tf_actions_and_internals E self x ints det) = Inr (acts, ints')
            \<longrightarrow> ints' = snd (network_apply E net x ints False True)))
   \<and> (network self = Some net \<and> distributions self = Some ds
       \<and> (\<forall>(name, d) \<in> set ds. 3 \<le> length (parameterize E d (shared_embedding E net x ints)))
       \<longrightarrow> parameterize_calls (fst (tf_actions_and_internals E self x ints det))
             = map (\<lambda>(name, d). (d, shared_embedding E net x ints)) ds
           \<and> (\<exists>acts. snd (tf_actions_and_internals E self x ints det)
                 = Inr (acts, snd (network_apply E net x ints False True))))"
proof (intro conjI allI impI)
  assume n: "network self = Some net"
  show "apply_calls (fst (tf_actions_and_internals E self x ints det))
        = [(net, x, ints, False, True)]"
    by (rule apply_called_once[OF n])
  show "t = shared_embedding E net x ints"
    if "Parameterize d t \<in> set (fst (tf_actions_and_internals E self x ints det))" for d t
    using n that by (rule parameterize_event_embedding)
  show "ints' = snd (network_apply E net x ints False True)"
    if "snd (tf_actions_and_internals E self x ints det) = Inr (acts, ints')" for acts ints'
    using n that by (rule returned_internals)
next
  assume a: "network self = Some net \<and> distributions self = Some ds
       \<and> (\<forall>(name, d) \<in> set ds. 3 \<le> length (parameterize E d (shared_embedding E net x ints)))"
  then have full: "tf_actions_and_internals E self x ints det
     = (Network_apply net x ints False True
          # concat (map (body_events E net (det \<or> requires_deterministic self) (length ds)
                 (shared_embedding E net x ints)) ds),
        Inr (fold (\<lambda>(name, d). AList.update name
                      (sample E d (parameterize E d (shared_embedding E net x ints))
                         (det \<or> requires_deterministic self))) ds [],
             snd (network_apply E net x ints False True)))"
    unfolding shared_embedding_def by (intro tf_actions_and_internals_full) simp_all
  show "parameterize_calls (fst (tf_actions_and_internals E self x ints det))
             = map (\<lambda>(name, d). (d, shared_embedding E net x ints)) ds"
    by (simp add: full parameterize_calls_body)
  show "\<exists>acts. snd (tf_actions_and_internals E self x ints det)
                 = Inr (acts, snd (network_apply E net x ints False True))"
    by (simp add: full)
qed

theorem network_applied_once_witness:
  "network example_initialized = Some example_network
   \<and> distributions example_initialized = Some example_distributions
   \<and> apply_calls (fst (tf_actions_and_internals example_env example_initialized
        [(''state'', Tensor ''s'')] [Tensor ''h''] False))
       = [(example_network, [(''state'', Tensor ''s'')], [Tensor ''h''], False, True)]
   \<and> parameterize_calls (fst (tf_actions_and_internals example_env example_initialized
        [(''state'', Tensor ''s'')] [Tensor ''h''] False))
       = [(Bernoulli (VTuple []) [], Tensor ''embedding''),
          (Categorical (VTuple []) (VInt 3) [], Tensor ''embedding'')]
   \<and> snd (tf_actions_and_internals example_env example_initialized
        [(''state'', Tensor ''s'')] [Tensor ''h''] False)
       = Inr ([(''flag'', Tensor ''draw''), (''move'', Tensor ''draw'')], [Tensor ''h''])"
proof -
  let ?x = "[(''state'', Tensor ''s'')]"
  let ?h = "[Tensor ''h'']"
  have n: "network example_initialized = Some example_network"
    and ds: "distributions example_initialized = Some example_distributions"
    by (simp_all add: example_initialized_def)
  have len: "\<forall>(name, d) \<in> set example_distributions.
      3 \<le> length (parameterize example_env d (shared_embedding example_env example_network ?x ?h))"
    by (simp add: example_env_def)
  from network_applied_once[of example_initialized example_network example_env ?x ?h False
      example_distributions] n ds len
  have "apply_calls (fst (tf_actions_and_internals example_env example_initialized ?x ?h False))
        = [(example_network, ?x, ?h, False, True)]"
    and "parameterize_calls (fst (tf_actions_and_internals example_env example_initialized
            ?x ?h False))
        = map (\<lambda>(name, d). (d, shared_embedding example_env example_network ?x ?h))
            example_distributions"
    by blast+
  moreover have "snd (tf_actions_and_internals example_env example_initialized ?x ?h False)
       = Inr ([(''flag'', Tensor ''draw''), (''move'', Tensor ''draw'')], ?h)"
    by (simp add: tf_actions_and_internals_def example_initialized_def example_env_def
        example_distributions_def example_model_def index_def Let_def)
  ultimately show ?thesis
    using n ds
    by (simp add: example_distributions_def shared_embedding_def example_env_def)
qed

text \<open>
  Claim C8. On an initialised model whose distributions yield parameter tuples of at least
  three components, the tensors registered with \<^verbatim>\<open>set_named_tensor\<close> are, per distribution
  and in order, the components 0, 1 and 2 of its parameter tuple under the keys
  \<^verbatim>\<open>logits\<close>, \<^verbatim>\<open>probabilities\<close> and \<^verbatim>\<open>state_value\<close>, each prefixed with the action name
  and an underscore exactly when the model holds more than one distribution; with exactly
  one distribution the keys are the three bare names. On every path each registered key
  and tensor is one of these.
\<close>

theorem named_tensor_prefix:
  "(network self = Some net \<and> distributions self = Some ds
     \<and> (\<forall>(name, d) \<in> set ds. 3 \<le> length (parameterize E d (shared_embedding E net x ints)))
     \<longrightarrow> named_tensor_calls (fst (tf_actions_and_internals E self x ints det))
           = concat (map (\<lambda>(name, d).
               [((if 1 < length ds then name @ ''_'' else []) @ ''logits'',
                   parameterize E d (shared_embedding E net x ints) ! 0),
                ((if 1 < length ds then name @ ''_'' else []) @ ''probabilities'',
                   parameterize E d (shared_embedding E net x ints) ! 1),
                ((if 1 < length ds then name @ ''_'' else []) @ ''state_value'',
                   parameterize E d (shared_embedding E net x ints) ! 2)]) ds)
         \<and> (1 < length ds \<longrightarrow>
               map fst (named_tensor_calls (fst (tf_actions_and_internals E self x ints det)))
                 = concat (map (\<lambda>(name, d).
                     [name @ ''_logits'', name @ ''_probabilities'', name @ ''_state_value''])
                     ds))
         \<and> (length ds = 1 \<longrightarrow>
               map fst (named_tensor_calls (fst (tf_actions_and_internals E self x ints det)))
                 = [''logits'', ''probabilities'', ''state_value'']))
   \<and> (network self = Some net \<and> distributions self = Some ds \<longrightarrow>
        (\<forall>k t. (k, t) \<in> set (named_tensor_calls (fst (tf_actions_and_internals E self x ints det)))
           \<longrightarrow> (\<exists>name d. (name, d) \<in> set ds
                  \<and> (k, t) \<in>
                     {((if 1 < length ds then name @ ''_'' else []) @ ''logits'',
                         parameterize E d (shared_embedding E net x ints) ! 0),
                      ((if 1 < length ds then name @ ''_'' else []) @ ''probabilities'',
                         parameterize E d (shared_embedding E net x ints) ! 1),
                      ((if 1 < length ds then name @ ''_'' else []) @ ''state_value'',
                         parameterize E d (shared_embedding E net x ints) ! 2)})))"
proof (intro conjI allI impI)
  assume a: "network self = Some net \<and> distributions self = Some ds
       \<and> (\<forall>(name, d) \<in> set ds. 3 \<le> length (parameterize E d (shared_embedding E net x ints)))"
  then have full: "tf_actions_and_internals E self x ints det
     = (Network_apply net x ints False True
          # concat (map (body_events E net (det \<or> requires_deterministic self) (length ds)
                 (shared_embedding E net x ints)) ds),
        Inr (fold (\<lambda>(name, d). AList.update name
                      (sample E d (parameterize E d (shared_embedding E net x ints))
                         (det \<or> requires_deterministic self))) ds [],
             snd (network_apply E net x ints False True)))"
    unfolding shared_embedding_def by (intro tf_actions_and_internals_full) simp_all
  show calls: "named_tensor_calls (fst (tf_actions_and_internals E self x ints det))
           = concat (map (\<lambda>(name, d).
               [((if 1 < length ds then name @ ''_'' else []) @ ''logits'',
                   parameterize E d (shared_embedding E net x ints) ! 0),
                ((if 1 < length ds then name @ ''_'' else []) @ ''probabilities'',
                   parameterize E d (shared_embedding E net x ints) ! 1),
                ((if 1 < length ds then name @ ''_'' else []) @ ''state_value'',
                   parameterize E d (shared_embedding E net x ints) ! 2)]) ds)"
    by (simp add: full named_tensor_calls_body del: One_nat_def)
  have keys: "map fst (concat (map (\<lambda>(name, d). [(p name @ ''logits'', f d),
        (p name @ ''probabilities'', g d), (p name @ ''state_value'', h d)]) items))
      = concat (map (\<lambda>(name, d). [p name @ ''logits'', p name @ ''probabilities'',
          p name @ ''state_value'']) items)"
    for p :: "string \<Rightarrow> string" and f g h :: "distribution \<Rightarrow> tensor"
      and items :: "distribution dict"
    by (induction items) auto
  show "map fst (named_tensor_calls (fst (tf_actions_and_internals E self x ints det)))
      = concat (map (\<lambda>(name, d).
          [name @ ''_logits'', name @ ''_probabilities'', name @ ''_state_value'']) ds)"
    if "1 < length ds"
    unfolding calls using that keys[of "\<lambda>name. name @ ''_''"] by simp
  show "map fst (named_tensor_calls (fst (tf_actions_and_internals E self x ints det)))
      = [''logits'', ''probabilities'', ''state_value'']"
    if "length ds = 1"
  proof -
    from that obtain name d where "ds = [(name, d)]"
      by (cases ds) auto
    then show ?thesis unfolding calls by simp
  qed
next
  fix k t
  assume a: "network self = Some net \<and> distributions self = Some ds"
    and mem: "(k, t) \<in> set (named_tensor_calls (fst (tf_actions_and_internals E self x ints det)))"
  from mem obtain net' where
    "Network_set_named_tensor net' k t \<in> set (fst (tf_actions_and_internals E self x ints det))"
    by (auto simp: named_tensor_calls_mem)
  with tf_actions_and_internals_events_subset[of self net ds E x ints det] a
  have "Network_set_named_tensor net' k t \<in> set (concat (map (body_events E net
          (det \<or> requires_deterministic self) (length ds)
          (shared_embedding E net x ints)) ds))"
    unfolding shared_embedding_def by blast
  then obtain name d where "(name, d) \<in> set ds"
    and "Network_set_named_tensor net' k t
           \<in> set (body_events E net (det \<or> requires_deterministic self) (length ds)
                   (shared_embedding E net x ints) (name, d))"
    by auto
  then show "\<exists>name d. (name, d) \<in> set ds
                  \<and> (k, t) \<in>
                     {((if 1 < length ds then name @ ''_'' else []) @ ''logits'',
                         parameterize E d (shared_embedding E net x ints) ! 0),
                      ((if 1 < length ds then name @ ''_'' else []) @ ''probabilities'',
                         parameterize E d (shared_embedding E net x ints) ! 1),
                      ((if 1 < length ds then name @ ''_'' else []) @ ''state_value'',
                         parameterize E d (shared_embedding E net x ints) ! 2)}"
    by (intro exI[of _ name] exI[of _ d]) (auto simp: body_events_def simp del: One_nat_def)
qed

theorem named_tensor_prefix_witness:
  "network example_initialized = Some example_network
   \<and> distributions example_initialized = Some example_distributions
   \<and> 1 < length example_distributions
   \<and> map fst (named_tensor_calls (fst (tf_actions_and_internals example_env
        example_initialized [] [] False)))
       = [''flag_logits'', ''flag_probabilities'', ''flag_state_value'',
          ''move_logits'', ''move_probabilities'', ''move_state_value'']
   \<and> length [(''flag'', Bernoulli (VTuple []) [])] = 1
   \<and> named_tensor_calls (fst (tf_actions_and_internals example_env
        (example_initialized\<lparr>distributions := Some [(''flag'', Bernoulli (VTuple []) [])]\<rparr>)
        [] [] False))
       = [(''logits'', Tensor ''logits''), (''probabilities'', Tensor ''probabilities''),
          (''state_value'', Tensor ''state_value'')]"
proof -
  let ?one = "[(''flag'', Bernoulli (VTuple []) [])]"
  let ?m1 = "example_initialized\<lparr>distributions := Some ?one\<rparr>"
  have n: "network example_initialized = Some example_network"
    and ds: "distributions example_initialized = Some example_distributions"
    and n1: "network ?m1 = Some example_network"
    and ds1: "distributions ?m1 = Some ?one"
    by (simp_all add: example_initialized_def)
  have two: "1 < length example_distributions"
    by (simp add: example_distributions_def)
  have len: "\<forall>(name, d) \<in> set example_distributions.
      3 \<le> length (parameterize example_env d (shared_embedding example_env example_network [] []))"
    and len1: "\<forall>(name, d) \<in> set ?one.
      3 \<le> length (parameterize example_env d (shared_embedding example_env example_network [] []))"
    by (simp_all add: example_env_def)
  from named_tensor_prefix[of example_initialized example_network example_distributions
      example_env "[]" "[]" False] n ds len two
  have "map fst (named_tensor_calls (fst (tf_actions_and_internals example_env
          example_initialized [] [] False)))
      = concat (map (\<lambda>(name, d).
          [name @ ''_logits'', name @ ''_probabilities'', name @ ''_state_value''])
          example_distributions)"
    by blast
  moreover
  from named_tensor_prefix[of ?m1 example_network ?one example_env "[]" "[]" False] n1 ds1 len1
  have "named_tensor_calls (fst (tf_actions_and_internals example_env ?m1 [] [] False))
      = concat (map (\<lambda>(name, d).
               [((if 1 < length ?one then name @ ''_'' else []) @ ''logits'',
                   parameterize example_env d
                     (shared_embedding example_env example_network [] []) ! 0),
                ((if 1 < length ?one then name @ ''_'' else []) @ ''probabilities'',
                   parameterize example_env d
                     (shared_embedding example_env example_network [] []) ! 1),
                ((if 1 < length ?one then name @ ''_'' else []) @ ''state_value'',
                   parameterize example_env d
                     (shared_embedding example_env example_network [] []) ! 2)]) ?one)"
    by blast
  ultimately show ?thesis
    using n ds two
    by (simp add: example_distributions_def example_env_def)
qed

subsection \<open>tf_kl_divergence\<close>

lemma kl_loop_closed:
  "kl_loop E emb items kls =
    (concat (map (\<lambda>(name, d).
        [Parameterize d emb,
         Kl_divergence d (map Stop_gradient (parameterize E d emb)) (parameterize E d emb)])
        items),
     kls @ map (\<lambda>(name, d).
        Reshape (kl_divergence E d (map Stop_gradient (parameterize E d emb))
                   (parameterize E d emb))
          [- 1, util_prod E (drop 1 (util_shape E
                  (kl_divergence E d (map Stop_gradient (parameterize E d emb))
                     (parameterize E d emb))))]) items)"
proof (induction items arbitrary: kls)
  case Nil
  then show ?case by simp
next
  case (Cons item items)
  obtain name d where item: "item = (name, d)" by (cases item)
  show ?case
    unfolding item by (simp add: Let_def Cons.IH del: One_nat_def)
qed

lemma apply_calls_kl_events:
  "apply_calls (concat (map (\<lambda>(name, d). [Parameterize d emb, Kl_divergence d (p d) (q d)])
      items)) = []"
  by (induction items) auto

text \<open>
  Claim C4, as amended. On an initialised model that holds at least one distribution,
  \<^verbatim>\<open>tf_kl_divergence\<close> applies the network exactly once and parameterizes every
  distribution from that embedding; for each distribution it calls \<^verbatim>\<open>kl_divergence\<close>
  with the gradient-stopped parameters first and the live parameters second, reshapes the
  result to \<^verbatim>\<open>(-1, collapsed_size)\<close>, concatenates the results in order along axis 1
  and returns the mean over axis 1 followed by the mean over axis 0. On an initialised
  model without distributions it applies the network once and raises \<^verbatim>\<open>ValueError\<close>,
  since \<^verbatim>\<open>tf.concat\<close> receives an empty list. The \<^verbatim>\<open>reference\<close> argument has no
  effect, in any state of the model.
\<close>

theorem kl_divergence_structure:
  "(network self = Some net \<and> distributions self = Some ds \<and> ds \<noteq> [] \<longrightarrow>
      tf_kl_divergence E self x ints acts terminal reward nx nints upd reference
        = (Network_apply net x ints upd False
             # concat (map (\<lambda>(name, d).
                 [Parameterize d (embedding_of E net x ints upd),
                  Kl_divergence d
                    (map Stop_gradient (parameterize E d (embedding_of E net x ints upd)))
                    (parameterize E d (embedding_of E net x ints upd))]) ds),
           Inr (Reduce_mean
                  (Reduce_mean
                     (Concat
                        (map (\<lambda>(name, d).
                           Reshape
                             (kl_divergence E d
                                (map Stop_gradient
                                   (parameterize E d (embedding_of E net x ints upd)))
                                (parameterize E d (embedding_of E net x ints upd)))
                             [- 1,
                              util_prod E (drop 1 (util_shape E
                                (kl_divergence E d
                                   (map Stop_gradient
                                      (parameterize E d (embedding_of E net x ints upd)))
                                   (parameterize E d (embedding_of E net x ints upd)))))])
                           ds) 1) 1) 0))
      \<and> apply_calls (fst (tf_kl_divergence E self x ints acts terminal reward nx nints upd
            reference)) = [(net, x, ints, upd, False)])
   \<and> (network self = Some net \<and> distributions self = Some [] \<longrightarrow>
        tf_kl_divergence E self x ints acts terminal reward nx nints upd reference
          = ([Network_apply net x ints upd False], Inl ValueError))
   \<and> tf_kl_divergence E self x ints acts terminal reward nx nints upd reference
       = tf_kl_divergence E self x ints acts terminal reward nx nints upd reference'"
proof (intro conjI impI)
  assume a: "network self = Some net \<and> distributions self = Some ds \<and> ds \<noteq> []"
  then show run: "tf_kl_divergence E self x ints acts terminal reward nx nints upd reference
        = (Network_apply net x ints upd False
             # concat (map (\<lambda>(name, d).
                 [Parameterize d (embedding_of E net x ints upd),
                  Kl_divergence d
                    (map Stop_gradient (parameterize E d (embedding_of E net x ints upd)))
                    (parameterize E d (embedding_of E net x ints upd))]) ds),
           Inr (Reduce_mean
                  (Reduce_mean
                     (Concat
                        (map (\<lambda>(name, d).
                           Reshape
                             (kl_divergence E d
                                (map Stop_gradient
                                   (parameterize E d (embedding_of E net x ints upd)))
                                (parameterize E d (embedding_of E net x ints upd)))
                             [- 1,
                              util_prod E (drop 1 (util_shape E
                                (kl_divergence E d
                                   (map Stop_gradient
                                      (parameterize E d (embedding_of E net x ints upd)))
                                   (parameterize E d (embedding_of E net x ints upd)))))])
                           ds) 1) 1) 0))"
    by (simp add: tf_kl_divergence_def Let_def kl_loop_closed embedding_of_def tf_concat_def
        del: One_nat_def)
  show "apply_calls (fst (tf_kl_divergence E self x ints acts terminal reward nx nints upd
            reference)) = [(net, x, ints, upd, False)]"
    unfolding run by (simp add: apply_calls_kl_events)
next
  assume "network self = Some net \<and> distributions self = Some []"
  then show "tf_kl_divergence E self x ints acts terminal reward nx nints upd reference
          = ([Network_apply net x ints upd False], Inl ValueError)"
    by (simp add: tf_kl_divergence_def Let_def tf_concat_def)
next
  show "tf_kl_divergence E self x ints acts terminal reward nx nints upd reference
       = tf_kl_divergence E self x ints acts terminal reward nx nints upd reference'"
    by (simp add: tf_kl_divergence_def)
qed

text \<open>
  The claim as stated fails on the model that \<^verbatim>\<open>initialize\<close> builds from an empty
  \<^verbatim>\<open>actions_spec\<close>: no mean is returned, the call raises \<^verbatim>\<open>ValueError\<close>.
\<close>

theorem kl_divergence_structure_counterexample:
  "initialize example_env example_model (VStr ''getter'') = Inr example_empty
   \<and> tf_kl_divergence example_env example_empty [] [] [] (Tensor ''terminal'')
        (Tensor ''reward'') [] [] True None
       = ([Network_apply example_network [] [] True False], Inl ValueError)"
  by (simp add: initialize_def create_distributions_def example_env_def example_model_def
      example_empty_def example_network_def tf_kl_divergence_def tf_concat_def)

theorem kl_divergence_structure_witness:
  "network example_initialized = Some example_network
   \<and> distributions example_initialized = Some example_distributions
   \<and> example_distributions \<noteq> []
   \<and> network example_empty = Some example_network
   \<and> distributions example_empty = Some []
   \<and> snd (tf_kl_divergence example_env example_empty [] [] [] (Tensor ''terminal'')
        (Tensor ''reward'') [] [] True (Some (Tensor ''reference''))) = Inl ValueError
   \<and> snd (tf_kl_divergence example_env example_initialized [] [] [] (Tensor ''terminal'')
        (Tensor ''reward'') [] [] True (Some (Tensor ''reference'')))
       = Inr (Reduce_mean
               (Reduce_mean
                  (Concat [Reshape (Tensor ''kl'') [- 1, 2], Reshape (Tensor ''kl'') [- 1, 2]] 1)
                  1) 0)
   \<and> kl_divergence_calls (fst (tf_kl_divergence example_env example_initialized [] [] []
        (Tensor ''terminal'') (Tensor ''reward'') [] [] True (Some (Tensor ''reference''))))
       = [(Bernoulli (VTuple []) [], map Stop_gradient example_parameters, example_parameters),
          (Categorical (VTuple []) (VInt 3) [], map Stop_gradient example_parameters,
           example_parameters)]"
proof -
  have n: "network example_initialized = Some example_network"
    and ds: "distributions example_initialized = Some example_distributions"
    by (simp_all add: example_initialized_def)
  have ne: "example_distributions \<noteq> []"
    by (simp add: example_distributions_def)
  have n0: "network example_empty = Some example_network"
    and ds0: "distributions example_empty = Some []"
    by (simp_all add: example_empty_def)
  from kl_divergence_structure[of example_empty example_network "[]"
      example_env "[]" "[]" "[]" "Tensor ''terminal''" "Tensor ''reward''" "[]" "[]" True
      "Some (Tensor ''reference'')"] n0 ds0
  have empty: "tf_kl_divergence example_env example_empty [] [] [] (Tensor ''terminal'')
        (Tensor ''reward'') [] [] True (Some (Tensor ''reference''))
        = ([Network_apply example_network [] [] True False], Inl ValueError)"
    by blast
  from kl_divergence_structure[of example_initialized example_network example_distributions
      example_env "[]" "[]" "[]" "Tensor ''terminal''" "Tensor ''reward''" "[]" "[]" True
      "Some (Tensor ''reference'')"] n ds ne
  have "tf_kl_divergence example_env example_initialized [] [] [] (Tensor ''terminal'')
        (Tensor ''reward'') [] [] True (Some (Tensor ''reference''))
        = (Network_apply example_network [] [] True False
             # concat (map (\<lambda>(name, d).
                 [Parameterize d (embedding_of example_env example_network [] [] True),
                  Kl_divergence d
                    (map Stop_gradient (parameterize example_env d
                       (embedding_of example_env example_network [] [] True)))
                    (parameterize example_env d
                       (embedding_of example_env example_network [] [] True))])
                 example_distributions),
           Inr (Reduce_mean
                  (Reduce_mean
                     (Concat
                        (map (\<lambda>(name, d).
                           Reshape
                             (kl_divergence example_env d
                                (map Stop_gradient
                                   (parameterize example_env d
                                      (embedding_of example_env example_network [] [] True)))
                                (parameterize example_env d
                                   (embedding_of example_env example_network [] [] True)))
                             [- 1,
                              util_prod example_env (drop 1 (util_shape example_env
                                (kl_divergence example_env d
                                   (map Stop_gradient
                                      (parameterize example_env d
                                         (embedding_of example_env example_network [] [] True)))
                                   (parameterize example_env d
                                      (embedding_of example_env example_network [] [] True)))))])
                           example_distributions) 1) 1) 0))"
    by blast
  then show ?thesis
    using n ds ne n0 ds0 empty
    by (simp add: example_env_def example_distributions_def example_parameters_def)
qed

subsection \<open>tf_regularization_losses\<close>






lemma float_gt0_cases: "float_gt0 x \<longleftrightarrow> (\<exists>r. x = Finite r \<and> 0 < r) \<or> x = PosInf"
  by (cases x) auto




subsection \<open>get_variables and get_summaries\<close>

lemma per_distribution_closed:
  "set names \<subseteq> fst ` set ds \<Longrightarrow>
   per_distribution f ds names = Inr (concat (map (\<lambda>name. f (the (map_of ds name))) names))"
proof (induction names)
  case Nil
  then show ?case by simp
next
  case (Cons name names)
  then have "name \<in> fst ` set ds" by simp
  then obtain d where d: "map_of ds name = Some d"
    by (metis contains_def contains_map_of not_Some_eq)
  from Cons have "per_distribution f ds names
      = Inr (concat (map (\<lambda>name. f (the (map_of ds name))) names))"
    by simp
  then show ?case
    by (simp add: getitem_def d)
qed

lemma per_distribution_sorted:
  "per_distribution f ds (sorted_names ds)
    = Inr (concat (map (\<lambda>name. f (the (map_of ds name))) (sorted_names ds)))"
  by (rule per_distribution_closed) (simp add: sorted_names_def)

lemma sorted_names_permutation:
  assumes "distinct (map fst ds)" "distinct (map fst ds')" "set ds' = set ds"
  shows "sorted_names ds' = sorted_names ds" and "map_of ds' = map_of ds"
proof -
  from assms(3) have "set (map fst ds') = set (map fst ds)" by simp
  with assms(1,2) have "mset (map fst ds') = mset (map fst ds)"
    by (metis set_eq_iff_mset_eq_distinct)
  then have "sort (map fst ds') = sort (map fst ds)"
    by (metis sorted_list_of_multiset_mset)
  then show "sorted_names ds' = sorted_names ds"
    by (simp add: sorted_names_def)
  from assms show "map_of ds' = map_of ds"
    by (simp add: map_of_inject_set)
qed

lemma get_variables_closed:
  assumes "network self = Some net" "distributions self = Some ds"
  shows "get_variables E self sub nt
    = Inr (super_get_variables E self sub nt @ network_get_variables E net nt
           @ concat (map (\<lambda>name. distribution_get_variables E (the (map_of ds name)) nt)
               (sorted_names ds)))"
  using assms by (simp add: get_variables_def Let_def per_distribution_sorted)

lemma get_summaries_closed:
  assumes "network self = Some net" "distributions self = Some ds"
  shows "get_summaries E self
    = Inr (super_get_summaries E self @ network_get_summaries E net
           @ concat (map (\<lambda>name. distribution_get_summaries E (the (map_of ds name)))
               (sorted_names ds)))"
  using assms by (simp add: get_summaries_def Let_def per_distribution_sorted)

text \<open>
  Claim C9. On an initialised model \<^verbatim>\<open>get_variables\<close> and \<^verbatim>\<open>get_summaries\<close> return the
  entries of the superclass, then those of the network, then those of the distributions,
  grouped per distribution in ascending lexicographic order of the action names
  (\<open>sorted_names\<close> is \<^verbatim>\<open>sorted(self.distributions)\<close>: sorted, and a permutation of the
  keys). The distribution part is a function of the dictionary's contents alone: a
  dictionary with the same entries inserted in another order gives the same part.
\<close>

theorem distribution_entries_sorted:
  "network self = Some net \<and> distributions self = Some ds \<longrightarrow>
     get_variables E self sub nt
       = Inr (super_get_variables E self sub nt @ network_get_variables E net nt
              @ concat (map (\<lambda>name. distribution_get_variables E (the (map_of ds name)) nt)
                  (sorted_names ds)))
     \<and> get_summaries E self
       = Inr (super_get_summaries E self @ network_get_summaries E net
              @ concat (map (\<lambda>name. distribution_get_summaries E (the (map_of ds name)))
                  (sorted_names ds)))
     \<and> sorted (sorted_names ds) \<and> mset (sorted_names ds) = mset (map fst ds)
     \<and> (\<forall>ds'. distinct (map fst ds) \<and> distinct (map fst ds') \<and> set ds' = set ds \<longrightarrow>
           get_variables E (self\<lparr>distributions := Some ds'\<rparr>) sub nt
             = Inr (super_get_variables E (self\<lparr>distributions := Some ds'\<rparr>) sub nt
                    @ network_get_variables E net nt
                    @ concat (map (\<lambda>name. distribution_get_variables E
                                (the (map_of ds name)) nt) (sorted_names ds)))
           \<and> get_summaries E (self\<lparr>distributions := Some ds'\<rparr>)
             = Inr (super_get_summaries E (self\<lparr>distributions := Some ds'\<rparr>)
                    @ network_get_summaries E net
                    @ concat (map (\<lambda>name. distribution_get_summaries E
                                (the (map_of ds name))) (sorted_names ds))))"
proof (intro impI conjI allI)
  assume a: "network self = Some net \<and> distributions self = Some ds"
  then show "get_variables E self sub nt
       = Inr (super_get_variables E self sub nt @ network_get_variables E net nt
              @ concat (map (\<lambda>name. distribution_get_variables E (the (map_of ds name)) nt)
                  (sorted_names ds)))"
    by (intro get_variables_closed) simp_all
  from a show "get_summaries E self
       = Inr (super_get_summaries E self @ network_get_summaries E net
              @ concat (map (\<lambda>name. distribution_get_summaries E (the (map_of ds name)))
                  (sorted_names ds)))"
    by (intro get_summaries_closed) simp_all
  show "sorted (sorted_names ds)" by (simp add: sorted_names_def)
  show "mset (sorted_names ds) = mset (map fst ds)" by (simp add: sorted_names_def)
  fix ds'
  assume p: "distinct (map fst ds) \<and> distinct (map fst ds') \<and> set ds' = set ds"
  then have same: "sorted_names ds' = sorted_names ds" "map_of ds' = map_of ds"
    by (simp_all add: sorted_names_permutation)
  have n': "network (self\<lparr>distributions := Some ds'\<rparr>) = Some net"
    and d': "distributions (self\<lparr>distributions := Some ds'\<rparr>) = Some ds'"
    using a by simp_all
  show "get_variables E (self\<lparr>distributions := Some ds'\<rparr>) sub nt
             = Inr (super_get_variables E (self\<lparr>distributions := Some ds'\<rparr>) sub nt
                    @ network_get_variables E net nt
                    @ concat (map (\<lambda>name. distribution_get_variables E
                                (the (map_of ds name)) nt) (sorted_names ds)))"
    unfolding get_variables_closed[OF n' d'] same ..
  show "get_summaries E (self\<lparr>distributions := Some ds'\<rparr>)
             = Inr (super_get_summaries E (self\<lparr>distributions := Some ds'\<rparr>)
                    @ network_get_summaries E net
                    @ concat (map (\<lambda>name. distribution_get_summaries E
                                (the (map_of ds name))) (sorted_names ds)))"
    unfolding get_summaries_closed[OF n' d'] same ..
qed

lemma example_sorted_names: "sorted_names example_distributions = [''flag'', ''move'']"
  unfolding example_distributions_def by code_simp

theorem distribution_entries_sorted_witness:
  "network example_initialized = Some example_network
   \<and> distributions example_initialized = Some example_distributions
   \<and> distinct (map fst example_distributions)
   \<and> distinct (map fst [(''move'', Categorical (VTuple []) (VInt 3) []),
                           (''flag'', Bernoulli (VTuple []) [])])
   \<and> set [(''move'', Categorical (VTuple []) (VInt 3) []),
            (''flag'', Bernoulli (VTuple []) [])] = set example_distributions
   \<and> get_variables example_env example_initialized False True
       = Inr [''timestep'', ''dense/W'', ''bernoulli/W'', ''categorical/W'']
   \<and> get_variables example_env
         (example_initialized\<lparr>distributions :=
            Some [(''move'', Categorical (VTuple []) (VInt 3) []),
                  (''flag'', Bernoulli (VTuple []) [])]\<rparr>) False True
       = Inr [''timestep'', ''dense/W'', ''bernoulli/W'', ''categorical/W'']
   \<and> get_summaries example_env
         (example_initialized\<lparr>distributions :=
            Some [(''move'', Categorical (VTuple []) (VInt 3) []),
                  (''flag'', Bernoulli (VTuple []) [])]\<rparr>)
       = Inr [Tensor ''reward/summary'', Tensor ''dense/summary'',
              Tensor ''bernoulli/summary'', Tensor ''categorical/summary'']"
proof -
  let ?ds' = "[(''move'', Categorical (VTuple []) (VInt 3) []),
               (''flag'', Bernoulli (VTuple []) [])]"
  let ?m' = "example_initialized\<lparr>distributions := Some ?ds'\<rparr>"
  have n: "network example_initialized = Some example_network"
    and ds: "distributions example_initialized = Some example_distributions"
    by (simp_all add: example_initialized_def)
  have perm: "distinct (map fst example_distributions)" "distinct (map fst ?ds')"
    "set ?ds' = set example_distributions"
    by (auto simp: example_distributions_def)
  have look: "map_of example_distributions ''flag'' = Some (Bernoulli (VTuple []) [])"
    "map_of example_distributions ''move'' = Some (Categorical (VTuple []) (VInt 3) [])"
    by (simp_all add: example_distributions_def)
  note inst = distribution_entries_sorted[of example_initialized example_network
      example_distributions example_env False True]
  from inst n ds
  have v: "get_variables example_env example_initialized False True
       = Inr (super_get_variables example_env example_initialized False True
              @ network_get_variables example_env example_network True
              @ concat (map (\<lambda>name. distribution_get_variables example_env
                          (the (map_of example_distributions name)) True)
                  (sorted_names example_distributions)))"
    by blast
  from inst n ds perm
  have v': "get_variables example_env ?m' False True
       = Inr (super_get_variables example_env ?m' False True
              @ network_get_variables example_env example_network True
              @ concat (map (\<lambda>name. distribution_get_variables example_env
                          (the (map_of example_distributions name)) True)
                  (sorted_names example_distributions)))"
    and s': "get_summaries example_env ?m'
       = Inr (super_get_summaries example_env ?m'
              @ network_get_summaries example_env example_network
              @ concat (map (\<lambda>name. distribution_get_summaries example_env
                          (the (map_of example_distributions name)))
                  (sorted_names example_distributions)))"
    by blast+
  show ?thesis
    unfolding v v' s' example_sorted_names
    using n ds perm by (simp add: look example_env_def)
qed

end
